theory Spec2Isabelle
  imports Main
begin

section \<open>Python values used by Delete.py\<close>

text \<open>
  Exceptions are values. The four Selenium classes that Delete.py imports are kept apart,
  every other exception class (WebDriverException, OSError, TypeError, JSONDecodeError, ...)
  is \<open>OtherException\<close>. All of them are subclasses of Python's \<open>Exception\<close>. The string
  carried by an exception is what \<open>str(e)\<close> returns.
\<close>

datatype exn =
    TimeoutException string
  | NoSuchElementException string
  | ElementClickInterceptedException string
  | StaleElementReferenceException string
  | OtherException string

fun str_of :: "exn \<Rightarrow> string" where
  "str_of (TimeoutException m) = m"
| "str_of (NoSuchElementException m) = m"
| "str_of (ElementClickInterceptedException m) = m"
| "str_of (StaleElementReferenceException m) = m"
| "str_of (OtherException m) = m"

text \<open>\<open>s.startswith(p)\<close>, \<open>sub in s\<close> on strings, \<open>s.split(sep)\<close> for a one-character
  separator, and the index \<open>[-1]\<close> (IndexError on the empty list is \<open>None\<close>).\<close>

fun startswith :: "string \<Rightarrow> string \<Rightarrow> bool" where
  "startswith s [] = True"
| "startswith [] (p # ps) = False"
| "startswith (c # cs) (p # ps) = (c = p \<and> startswith cs ps)"

fun py_in :: "string \<Rightarrow> string \<Rightarrow> bool" where
  "py_in sub [] = (sub = [])"
| "py_in sub (c # cs) = (startswith (c # cs) sub \<or> py_in sub cs)"

fun py_split :: "char \<Rightarrow> string \<Rightarrow> string list" where
  "py_split sep [] = [[]]"
| "py_split sep (c # cs) =
     (if c = sep then [] # py_split sep cs
      else (case py_split sep cs of [] \<Rightarrow> [[c]] | w # ws \<Rightarrow> (c # w) # ws))"

definition py_last :: "'a list \<Rightarrow> 'a option" where
  "py_last xs = (case xs of [] \<Rightarrow> None | _ # _ \<Rightarrow> Some (last xs))"

text \<open>
  What \<open>json.load\<close> can return. JSON \<open>true\<close>/\<open>false\<close> and non-integer numbers are outside
  the modelled fragment. The text of deleted_chats.json is represented by what \<open>json.load\<close>
  makes of it: \<open>Garbage\<close> is any text that is not JSON (the empty file included), \<open>Doc j\<close>
  a text that parses to \<open>j\<close>; \<open>json.dump(v, f)\<close> writes \<open>Doc v\<close>.
\<close>

datatype json = JNull | JInt int | JStr string | JArr "json list" | JObj "(string \<times> json) list"

datatype file_data = Garbage | Doc json

definition json_load :: "file_data \<Rightarrow> exn + json" where
  "json_load d = (case d of Garbage \<Rightarrow> Inl (OtherException ''JSONDecodeError'') | Doc j \<Rightarrow> Inr j)"

fun hashable :: "json \<Rightarrow> bool" where
  "hashable (JArr xs) = False"
| "hashable (JObj kvs) = False"
| "hashable j = True"

text \<open>\<open>set(v)\<close>: the elements of a list, the keys of a dict, the characters of a string;
  TypeError for an unhashable element and for a value that is not iterable.\<close>

fun py_set :: "json \<Rightarrow> exn + json set" where
  "py_set (JArr xs) =
     (if list_all hashable xs then Inr (set xs) else Inl (OtherException ''TypeError: unhashable type''))"
| "py_set (JObj kvs) = Inr (set (map (\<lambda>kv. JStr (fst kv)) kvs))"
| "py_set (JStr s) = Inr (set (map (\<lambda>c. JStr [c]) s))"
| "py_set j = Inl (OtherException ''TypeError: object is not iterable'')"

section \<open>The browser, the disk and the state of a ChatGPTDeleter\<close>

datatype locator = CSS_SELECTOR | XPATH | TAG_NAME

type_synonym elem = nat

text \<open>Every call Delete.py makes on the driver, on an element or on an ActionChains.\<close>

datatype cmd =
    StartFirefox
  | Get string
  | Quit
  | Refresh
  | ExecuteScript string
  | WaitPresence locator string nat
  | FindElements locator string
  | FindElement locator string
  | GetAttribute elem string
  | Click elem
  | FindChild elem locator string
  | MoveTo elem
  | WaitVisibleIn elem locator string nat
  | IsDisplayed elem
  | IsEnabled elem
  | MoveClick elem

datatype level = INFO | WARNING | ERROR

datatype event = Did cmd | Failed cmd exn | Sleep nat | Log level string

text \<open>
  The web application behind the driver is a parameter: a state machine over its own
  state \<open>'d\<close> that answers each call with a value or an exception. \<open>tick\<close> is what the
  page does while the script sleeps; \<open>list_of\<close> is the iteration order of a Python set.
\<close>

record 'd env =
  run_unit :: "cmd \<Rightarrow> 'd \<Rightarrow> (exn + unit) \<times> 'd"
  run_elem :: "cmd \<Rightarrow> 'd \<Rightarrow> (exn + elem) \<times> 'd"
  run_elems :: "cmd \<Rightarrow> 'd \<Rightarrow> (exn + elem list) \<times> 'd"
  run_attr :: "cmd \<Rightarrow> 'd \<Rightarrow> (exn + string option) \<times> 'd"
  run_bool :: "cmd \<Rightarrow> 'd \<Rightarrow> (exn + bool) \<times> 'd"
  tick :: "nat \<Rightarrow> 'd \<Rightarrow> 'd"
  list_of :: "json set \<Rightarrow> json list"

text \<open>
  The disk as far as deleted_chats.json goes: the contents of the file (\<open>None\<close>: no such
  file) and the access the process has to its path. \<open>NoSearch\<close>: a directory on the path
  may not be searched, so that every system call on the path, \<open>stat\<close> included, fails
  with EACCES. \<open>Reachable r w\<close>: the path can be looked up; the file may be opened for
  reading iff \<open>r\<close> and opened (or created) for writing iff \<open>w\<close>.
\<close>

datatype path_access = NoSearch | Reachable bool bool

record filesystem =
  contents :: "file_data option"
  access :: path_access

definition readable :: "filesystem \<Rightarrow> bool" where
  "readable fs = (case access fs of NoSearch \<Rightarrow> False | Reachable r w \<Rightarrow> r)"

definition writable :: "filesystem \<Rightarrow> bool" where
  "writable fs = (case access fs of NoSearch \<Rightarrow> False | Reachable r w \<Rightarrow> w)"

record 'd deleter =
  deleted_chat_ids :: "json set"
  current_error_chat_id :: "string option"
  dark_mode_error_count :: nat
  browser :: 'd
  disk :: filesystem
  trace :: "event list"

record chat =
  chat_id :: string
  element :: elem

type_synonym ('d, 'a) prog = "'d deleter \<Rightarrow> (exn + 'a) \<times> 'd deleter"

definition returnM :: "'a \<Rightarrow> ('d, 'a) prog" where
  "returnM a s = (Inr a, s)"

definition raiseM :: "exn \<Rightarrow> ('d, 'a) prog" where
  "raiseM e s = (Inl e, s)"

definition bindM :: "('d, 'a) prog \<Rightarrow> ('a \<Rightarrow> ('d, 'b) prog) \<Rightarrow> ('d, 'b) prog" where
  "bindM m f s = (case m s of (Inl e, s1) \<Rightarrow> (Inl e, s1) | (Inr a, s1) \<Rightarrow> f a s1)"

definition thenM :: "('d, 'a) prog \<Rightarrow> ('d, 'b) prog \<Rightarrow> ('d, 'b) prog" where
  "thenM m k = bindM m (\<lambda>_. k)"

text \<open>\<open>try: m except Exception as e: h e\<close>\<close>

definition catchM :: "('d, 'a) prog \<Rightarrow> (exn \<Rightarrow> ('d, 'a) prog) \<Rightarrow> ('d, 'a) prog" where
  "catchM m h s = (case m s of (Inl e, s1) \<Rightarrow> h e s1 | (Inr a, s1) \<Rightarrow> (Inr a, s1))"

definition liftE :: "exn + 'a \<Rightarrow> ('d, 'a) prog" where
  "liftE r s = (r, s)"

definition record_call :: "cmd \<Rightarrow> (exn + 'a) \<times> 'd \<Rightarrow> 'd deleter \<Rightarrow> (exn + 'a) \<times> 'd deleter" where
  "record_call c r s =
     (case r of
        (Inl e, d) \<Rightarrow> (Inl e, s\<lparr>browser := d, trace := trace s @ [Failed c e]\<rparr>)
      | (Inr a, d) \<Rightarrow> (Inr a, s\<lparr>browser := d, trace := trace s @ [Did c]\<rparr>))"

definition call_unit :: "'d env \<Rightarrow> cmd \<Rightarrow> ('d, unit) prog" where
  "call_unit E c s = record_call c (run_unit E c (browser s)) s"

definition call_elem :: "'d env \<Rightarrow> cmd \<Rightarrow> ('d, elem) prog" where
  "call_elem E c s = record_call c (run_elem E c (browser s)) s"

definition call_elems :: "'d env \<Rightarrow> cmd \<Rightarrow> ('d, elem list) prog" where
  "call_elems E c s = record_call c (run_elems E c (browser s)) s"

definition call_attr :: "'d env \<Rightarrow> cmd \<Rightarrow> ('d, string option) prog" where
  "call_attr E c s = record_call c (run_attr E c (browser s)) s"

definition call_bool :: "'d env \<Rightarrow> cmd \<Rightarrow> ('d, bool) prog" where
  "call_bool E c s = record_call c (run_bool E c (browser s)) s"

definition slept :: "'d env \<Rightarrow> nat \<Rightarrow> 'd deleter \<Rightarrow> 'd deleter" where
  "slept E n s = s\<lparr>browser := tick E n (browser s), trace := trace s @ [Sleep n]\<rparr>"

definition sleep :: "'d env \<Rightarrow> nat \<Rightarrow> ('d, unit) prog" where
  "sleep E n s = (Inr (), slept E n s)"

definition logged :: "level \<Rightarrow> string \<Rightarrow> 'd deleter \<Rightarrow> 'd deleter" where
  "logged l m s = s\<lparr>trace := trace s @ [Log l m]\<rparr>"

definition logging :: "level \<Rightarrow> string \<Rightarrow> ('d, unit) prog" where
  "logging l m s = (Inr (), logged l m s)"

section \<open>Configuration\<close>

definition WAIT_TIMEOUT :: nat where
  "WAIT_TIMEOUT = 10"

definition BASE_URL :: string where
  "BASE_URL = ''https://chat.openai.com/''"

definition chat_link_selector :: string where
  \<open>chat_link_selector = ''a[href^="/c/"]''\<close>

section \<open>Loading and saving the deleted log\<close>

definition open_read :: "('d, file_data) prog" where
  "open_read s =
     (case contents (disk s) of
        None \<Rightarrow> (Inl (OtherException ''FileNotFoundError''), s)
      | Some d \<Rightarrow> if readable (disk s) then (Inr d, s) else (Inl (OtherException ''PermissionError''), s))"

text \<open>\<open>open(DELETED_LOG_FILE, 'w')\<close> truncates the file (or creates it empty).\<close>

definition open_write :: "('d, unit) prog" where
  "open_write s =
     (if writable (disk s) then (Inr (), s\<lparr>disk := (disk s)\<lparr>contents := Some Garbage\<rparr>\<rparr>)
      else (Inl (OtherException ''PermissionError''), s))"

definition json_dump :: "json \<Rightarrow> ('d, unit) prog" where
  "json_dump j s = (Inr (), s\<lparr>disk := (disk s)\<lparr>contents := Some (Doc j)\<rparr>\<rparr>)"

definition set_deleted_chat_ids :: "json set \<Rightarrow> ('d, unit) prog" where
  "set_deleted_chat_ids S s = (Inr (), s\<lparr>deleted_chat_ids := S\<rparr>)"

text \<open>
  \<open>Path(DELETED_LOG_FILE).exists()\<close>: pathlib calls \<open>stat\<close> and turns only ENOENT, ENOTDIR,
  EBADF and ELOOP into False; any other OSError, EACCES among them, is raised again.
\<close>

definition path_exists :: "('d, bool) prog" where
  "path_exists s =
     (case access (disk s) of
        NoSearch \<Rightarrow> (Inl (OtherException ''PermissionError''), s)
      | Reachable r w \<Rightarrow> (Inr (contents (disk s) \<noteq> None), s))"

text \<open>\<open>_load_deleted_log\<close>: the test \<open>exists()\<close> of line 75 is outside the \<open>try\<close> of line 76.\<close>

definition load_deleted_log :: "('d, unit) prog" where
  "load_deleted_log =
     bindM path_exists (\<lambda>found.
       if found then
         catchM
           (bindM open_read (\<lambda>f.
            bindM (liftE (json_load f)) (\<lambda>j.
            bindM (liftE (py_set j)) (\<lambda>S.
            thenM (set_deleted_chat_ids S)
                  (logging INFO ''Loaded deleted chat IDs'')))))
           (\<lambda>e. logging WARNING ''Could not load deleted chats log'')
       else returnM ())"

definition save_deleted_log :: "'d env \<Rightarrow> ('d, unit) prog" where
  "save_deleted_log E s =
     catchM
       (thenM open_write (json_dump (JArr (list_of E (deleted_chat_ids s)))))
       (\<lambda>e. logging WARNING ''Could not save deleted chats log'') s"

section \<open>Listing the chats of the sidebar\<close>

text \<open>The loop over \<open>elements\<close> of \<open>_get_chats\<close>; its bare \<open>except: continue\<close> swallows
  every exception of one iteration.\<close>

fun collect_chats :: "'d env \<Rightarrow> elem list \<Rightarrow> chat list \<Rightarrow> ('d, chat list) prog" where
  "collect_chats E [] chats s = (Inr chats, s)"
| "collect_chats E (el # els) chats s =
     (case call_attr E (GetAttribute el ''href'') s of
        (Inl e, s1) \<Rightarrow> collect_chats E els chats s1
      | (Inr None, s1) \<Rightarrow> collect_chats E els chats s1
      | (Inr (Some href), s1) \<Rightarrow>
          if href \<noteq> [] \<and> py_in ''/c/'' href then
            (case py_last (py_split CHR ''/'' href) of
               None \<Rightarrow> collect_chats E els chats s1
             | Some cid \<Rightarrow>
                 if JStr cid \<notin> deleted_chat_ids s1
                 then collect_chats E els (chats @ [\<lparr>chat_id = cid, element = el\<rparr>]) s1
                 else collect_chats E els chats s1)
          else collect_chats E els chats s1)"

definition get_chats :: "'d env \<Rightarrow> ('d, chat list) prog" where
  "get_chats E =
     catchM
       (thenM (call_elem E (WaitPresence CSS_SELECTOR chat_link_selector WAIT_TIMEOUT))
       (bindM (call_elems E (FindElements CSS_SELECTOR chat_link_selector)) (\<lambda>elements.
        collect_chats E elements [])))
       (\<lambda>e. thenM (logging ERROR ''Error getting chats'') (returnM []))"

section \<open>Deleting one chat\<close>

definition overlay_cleanup_script :: string where
  \<open>overlay_cleanup_script =
     ''const overlays = document.querySelectorAll('div[class*="z-50"]'); overlays.forEach(o => o.remove());''\<close>

definition dark_mode_marker :: string where
  \<open>dark_mode_marker = ''because another element <html class="dark">''\<close>

definition options_button_selector :: string where
  \<open>options_button_selector = ''button[data-testid$="-options"][aria-haspopup="menu"]''\<close>

definition delete_menu_item_selector :: string where
  \<open>delete_menu_item_selector = ''div[data-testid="delete-chat-menu-item"]''\<close>

definition dialog_selectors :: "string list" where
  \<open>dialog_selectors =
     [''div[role="dialog"]'', ''div.relative.flex.flex-col'', ''div[data-state="open"]'']\<close>

definition button_selectors :: "string list" where
  \<open>button_selectors =
     [''/html/body/div[5]/div/div/div/div[2]/div[2]/button[1]'',
      ''//button[contains(text(), "Delete")]'',
      ''//div[@role="dialog"]//button[contains(@class, "text-red")]'',
      ''//div[@role="dialog"]//button[last()]'']\<close>

text \<open>The f-string \<open>a[href*="{chat["id"]}"]\<close> of the final check.\<close>

definition chat_href_selector :: "string \<Rightarrow> string" where
  \<open>chat_href_selector cid = ''a[href*="'' @ cid @ ''"]''\<close>

fun is_timeout :: "exn \<Rightarrow> bool" where
  "is_timeout (TimeoutException m) = True"
| "is_timeout e = False"

fun is_no_such_element :: "exn \<Rightarrow> bool" where
  "is_no_such_element (NoSuchElementException m) = True"
| "is_no_such_element e = False"

fun is_click_intercepted :: "exn \<Rightarrow> bool" where
  "is_click_intercepted (ElementClickInterceptedException m) = True"
| "is_click_intercepted e = False"

definition track_chat :: "string \<Rightarrow> ('d, unit) prog" where
  "track_chat cid s =
     (if current_error_chat_id s \<noteq> Some cid
      then (Inr (), s\<lparr>current_error_chat_id := Some cid, dark_mode_error_count := 0\<rparr>)
      else (Inr (), s))"

definition incr_dark_mode_error_count :: "('d, unit) prog" where
  "incr_dark_mode_error_count s = (Inr (), s\<lparr>dark_mode_error_count := dark_mode_error_count s + 1\<rparr>)"

definition reset_dark_mode_error_count :: "('d, unit) prog" where
  "reset_dark_mode_error_count s = (Inr (), s\<lparr>dark_mode_error_count := 0\<rparr>)"

definition read_dark_mode_error_count :: "('d, nat) prog" where
  "read_dark_mode_error_count s = (Inr (dark_mode_error_count s), s)"

text \<open>
  The body shared by the two handlers of \<open>_delete_chat\<close> (lines 219-230 for the
  intercepted click on the options button, lines 319-330 for every other exception):
  count the fault when its message has the dark-mode marker, refresh at the fifth,
  and return False.
\<close>

definition dark_mode_handler :: "'d env \<Rightarrow> chat \<Rightarrow> exn \<Rightarrow> ('d, bool) prog" where
  "dark_mode_handler E chat e =
     (if py_in dark_mode_marker (str_of e) then
        thenM incr_dark_mode_error_count
       (thenM (logging WARNING ''Dark mode error count for chat'')
       (bindM read_dark_mode_error_count (\<lambda>n.
          if n \<ge> 5 then
            thenM (logging WARNING ''Refreshing page due to multiple dark mode errors'')
           (thenM (call_unit E Refresh)
           (thenM (sleep E 3)
           (thenM reset_dark_mode_error_count
           (returnM False))))
          else returnM False)))
      else thenM (logging ERROR ''Unexpected error'') (returnM False))"

text \<open>The click on the three-dot button. \<open>None\<close>: the click went through and
  \<open>_delete_chat\<close> goes on; \<open>Some b\<close>: \<open>_delete_chat\<close> returns \<open>b\<close>.\<close>

definition click_options :: "'d env \<Rightarrow> chat \<Rightarrow> elem \<Rightarrow> ('d, bool option) prog" where
  "click_options E chat menu_button s =
     (case thenM (call_unit E (MoveClick menu_button)) (sleep E 1) s of
        (Inr u, s1) \<Rightarrow> (Inr None, s1)
      | (Inl e, s1) \<Rightarrow>
          if is_click_intercepted e
          then bindM (dark_mode_handler E chat e) (\<lambda>b. returnM (Some b)) s1
          else (Inl e, s1))"

definition find_delete_button_in_menu :: "'d env \<Rightarrow> ('d, elem option) prog" where
  "find_delete_button_in_menu E =
     catchM
       (thenM (call_elem E (WaitPresence CSS_SELECTOR delete_menu_item_selector WAIT_TIMEOUT))
       (bindM (call_elem E (FindElement CSS_SELECTOR delete_menu_item_selector)) (\<lambda>delete_button.
        returnM (Some delete_button))))
       (\<lambda>e. thenM (logging WARNING ''Error finding menu delete button'') (returnM None))"

fun find_dialog :: "'d env \<Rightarrow> string list \<Rightarrow> ('d, bool) prog" where
  "find_dialog E [] s = (Inr False, s)"
| "find_dialog E (selector # rest) s =
     (case call_elem E (WaitPresence CSS_SELECTOR selector 3) s of
        (Inr d, s1) \<Rightarrow> (Inr True, logged INFO ''Found dialog with selector'' s1)
      | (Inl e, s1) \<Rightarrow> if is_timeout e then find_dialog E rest s1 else (Inl e, s1))"

text \<open>The inner loop over \<open>button_selectors\<close>: it returns whether a click succeeded
  and swallows every exception.\<close>

fun try_selectors :: "'d env \<Rightarrow> string list \<Rightarrow> ('d, bool) prog" where
  "try_selectors E [] s = (Inr False, s)"
| "try_selectors E (selector # rest) s =
     (case bindM (call_elem E (FindElement XPATH selector)) (\<lambda>confirm_button.
             call_unit E (Click confirm_button)) s of
        (Inr u, s1) \<Rightarrow> (Inr True, s1)
      | (Inl e, s1) \<Rightarrow>
          if is_no_such_element e then try_selectors E rest s1
          else try_selectors E rest (logged ERROR ''Error with selector'' s1))"

text \<open>The outer loop \<open>for attempt in range(5)\<close>.\<close>

fun confirm_attempts :: "'d env \<Rightarrow> nat list \<Rightarrow> ('d, bool) prog" where
  "confirm_attempts E [] s = (Inr False, s)"
| "confirm_attempts E (attempt # rest) s =
     (case try_selectors E button_selectors (if attempt > 0 then slept E 1 s else s) of
        (Inr success, s1) \<Rightarrow> if success then (Inr True, s1) else confirm_attempts E rest s1
      | (Inl e, s1) \<Rightarrow> (Inl e, s1))"

function verify_gone :: "'d env \<Rightarrow> chat \<Rightarrow> nat \<Rightarrow> ('d, bool) prog" where
  "verify_gone E chat retries s =
     (if retries < 3 then
        (case call_elem E (FindElement CSS_SELECTOR (chat_href_selector (chat_id chat))) s of
           (Inr l, s1) \<Rightarrow> verify_gone E chat (retries + 1) (slept E 1 s1)
         | (Inl e, s1) \<Rightarrow>
             if is_no_such_element e
             then (Inr True, logged INFO ''Successfully deleted chat'' s1)
             else (Inl e, s1))
      else (Inr False, logged WARNING ''Chat still exists after deletion attempt'' s))"
  by pat_completeness auto
termination
  by (relation "measure (\<lambda>(E, chat, retries, s). 3 - retries)") auto

text \<open>Steps 6 and 7 of \<open>_delete_chat\<close>: click the confirmation button, then check
  that the link of the chat has gone.\<close>

definition confirm_and_verify :: "'d env \<Rightarrow> chat \<Rightarrow> ('d, bool) prog" where
  "confirm_and_verify E chat =
     bindM (confirm_attempts E [0..<5]) (\<lambda>success.
       if \<not> success then
         thenM (logging WARNING ''All confirmation button click attempts failed'')
        (thenM (call_unit E Refresh)
        (thenM (sleep E 5)
        (thenM reset_dark_mode_error_count
        (returnM False))))
       else thenM (sleep E 3) (verify_gone E chat 0))"

text \<open>Steps 4 and 5: the Delete item of the menu and the confirmation dialog.\<close>

definition delete_and_confirm :: "'d env \<Rightarrow> chat \<Rightarrow> ('d, bool) prog" where
  "delete_and_confirm E chat =
     bindM (find_delete_button_in_menu E) (\<lambda>delete_button.
       case delete_button of
         None \<Rightarrow> thenM (logging WARNING ''Delete button not found in menu after waiting'') (returnM False)
       | Some b \<Rightarrow>
           thenM (call_unit E (Click b))
          (thenM (sleep E 1)
          (bindM (find_dialog E dialog_selectors) (\<lambda>dialog_found.
             if \<not> dialog_found
             then thenM (logging WARNING ''Could not find confirmation dialog'') (returnM False)
             else confirm_and_verify E chat))))"

text \<open>Steps 1 to 3, up to the three-dot button being located.\<close>

definition open_options_menu :: "'d env \<Rightarrow> chat \<Rightarrow> ('d, elem) prog" where
  "open_options_menu E chat =
     thenM (call_unit E (ExecuteScript overlay_cleanup_script))
    (thenM (track_chat (chat_id chat))
    (thenM (call_unit E (Click (element chat)))
    (thenM (sleep E 1)
    (bindM (call_elem E (FindChild (element chat) XPATH ''..'')) (\<lambda>chat_container.
     thenM (call_unit E (MoveTo chat_container))
    (thenM (sleep E 1)
    (bindM (call_elem E (WaitVisibleIn chat_container CSS_SELECTOR options_button_selector WAIT_TIMEOUT))
       (\<lambda>menu_button.
     thenM (call_bool E (IsDisplayed menu_button))
    (thenM (call_bool E (IsEnabled menu_button))
    (thenM (logging INFO ''Menu button displayed? enabled?'')
    (returnM menu_button)))))))))))"

text \<open>The \<open>try\<close> block of \<open>_delete_chat\<close>.\<close>

definition delete_chat_body :: "'d env \<Rightarrow> chat \<Rightarrow> ('d, bool) prog" where
  "delete_chat_body E chat =
     bindM (open_options_menu E chat) (\<lambda>menu_button.
     bindM (click_options E chat menu_button) (\<lambda>r.
       case r of Some b \<Rightarrow> returnM b | None \<Rightarrow> delete_and_confirm E chat))"

text \<open>The handler of the outer \<open>except Exception as e\<close> (lines 317-330).\<close>

definition outer_handler :: "'d env \<Rightarrow> chat \<Rightarrow> exn \<Rightarrow> ('d, bool) prog" where
  "outer_handler E chat e =
     thenM (logging ERROR ''Error in deletion process for chat'') (dark_mode_handler E chat e)"

definition delete_chat :: "'d env \<Rightarrow> chat \<Rightarrow> ('d, bool) prog" where
  "delete_chat E chat = catchM (delete_chat_body E chat) (outer_handler E chat)"

text \<open>The same chat handed to \<open>_delete_chat\<close> in \<open>n\<close> consecutive scans of the main loop,
  which stops at the first exception that \<open>_delete_chat\<close> lets through.\<close>

fun delete_chat_times :: "nat \<Rightarrow> 'd env \<Rightarrow> chat \<Rightarrow> 'd deleter \<Rightarrow> (exn + bool) list \<times> 'd deleter" where
  "delete_chat_times 0 E chat s = ([], s)"
| "delete_chat_times (Suc n) E chat s =
     (case delete_chat E chat s of
        (Inl e, s1) \<Rightarrow> ([Inl e], s1)
      | (Inr b, s1) \<Rightarrow>
          (case delete_chat_times n E chat s1 of (rs, s2) \<Rightarrow> (Inr b # rs, s2)))"

section \<open>The main loop\<close>

definition add_deleted_chat_id :: "string \<Rightarrow> ('d, unit) prog" where
  "add_deleted_chat_id cid s = (Inr (), s\<lparr>deleted_chat_ids := insert (JStr cid) (deleted_chat_ids s)\<rparr>)"

text \<open>The body of \<open>for chat in chats\<close>.\<close>

definition process_chat :: "'d env \<Rightarrow> chat \<Rightarrow> ('d, unit) prog" where
  "process_chat E chat =
     bindM (delete_chat E chat) (\<lambda>ok.
       if ok then
         thenM (add_deleted_chat_id (chat_id chat))
        (thenM (save_deleted_log E)
        (logging INFO ''Deleted chat''))
       else logging WARNING ''Failed to delete chat'')"

fun for_chats :: "'d env \<Rightarrow> chat list \<Rightarrow> ('d, unit) prog" where
  "for_chats E [] s = (Inr (), s)"
| "for_chats E (chat # rest) s =
     (case process_chat E chat s of
        (Inr u, s1) \<Rightarrow> for_chats E rest s1
      | (Inl e, s1) \<Rightarrow> (Inl e, s1))"

text \<open>\<open>while True\<close>: the loop need not end, so not returning is \<open>None\<close>.\<close>

partial_function (option) main_loop :: "'d env \<Rightarrow> 'd deleter \<Rightarrow> ((exn + unit) \<times> 'd deleter) option" where
  "main_loop E s =
     (case get_chats E s of
        (Inl e, s1) \<Rightarrow> Some (Inl e, s1)
      | (Inr chats, s1) \<Rightarrow>
          if chats = [] then Some (Inr (), logged INFO ''No more chats to delete'' s1)
          else (case for_chats E chats s1 of
                  (Inl e, s2) \<Rightarrow> Some (Inl e, s2)
                | (Inr u, s2) \<Rightarrow> main_loop E (slept E 1 s2)))"

text \<open>\<open>run\<close>: start the browser, open the page, loop; every exception is logged and the
  browser is closed in the \<open>finally\<close> block when it had been started.\<close>

definition quit_driver :: "'d env \<Rightarrow> 'd deleter \<Rightarrow> 'd deleter" where
  "quit_driver E s = snd (call_unit E Quit s)"

definition run :: "'d env \<Rightarrow> 'd deleter \<Rightarrow> 'd deleter option" where
  "run E s =
     (case call_unit E StartFirefox s of
        (Inl e, s1) \<Rightarrow> Some (logged ERROR ''Error during execution'' s1)
      | (Inr u, s1) \<Rightarrow>
          (case thenM (call_unit E (Get BASE_URL))
                      (call_elem E (WaitPresence TAG_NAME ''body'' WAIT_TIMEOUT)) s1 of
             (Inl e, s2) \<Rightarrow> Some (quit_driver E (logged ERROR ''Error during execution'' s2))
           | (Inr b, s2) \<Rightarrow>
               (case main_loop E s2 of
                  None \<Rightarrow> None
                | Some (Inl e, s3) \<Rightarrow> Some (quit_driver E (logged ERROR ''Error during execution'' s3))
                | Some (Inr u, s3) \<Rightarrow> Some (quit_driver E s3))))"

text \<open>\<open>ChatGPTDeleter.__init__\<close>: the profile path found by \<open>get_firefox_profile\<close> is a
  parameter; the fields are initialised and the deleted log is loaded.\<close>

definition init :: "string option \<Rightarrow> 'd \<Rightarrow> filesystem \<Rightarrow> (exn + unit) \<times> 'd deleter" where
  "init profile_path d fs =
     (let s0 = \<lparr>deleted_chat_ids = {}, current_error_chat_id = None, dark_mode_error_count = 0,
                 browser = d, disk = fs, trace = []\<rparr>
      in case profile_path of
           None \<Rightarrow> (Inl (OtherException ''No Firefox profile found!''), s0)
         | Some p \<Rightarrow> if p = [] then (Inl (OtherException ''No Firefox profile found!''), s0)
                     else load_deleted_log s0)"

section \<open>Observations on a run\<close>

text \<open>The events a call added to the trace, and the number of page reloads among them.\<close>

definition new_events :: "'d deleter \<Rightarrow> 'd deleter \<Rightarrow> event list" where
  "new_events s s' = drop (length (trace s)) (trace s')"

fun is_reload :: "event \<Rightarrow> bool" where
  "is_reload (Did c) = (c = Refresh)"
| "is_reload (Failed c e) = (c = Refresh)"
| "is_reload ev = False"

definition reloads :: "event list \<Rightarrow> nat" where
  "reloads tr = length (filter is_reload tr)"

section \<open>Simulated pages\<close>

text \<open>A sidebar with two links, the first one already deleted.\<close>

definition ui_sidebar :: "unit env" where
  "ui_sidebar =
     \<lparr>run_unit = (\<lambda>c d. (Inr (), d)),
      run_elem = (\<lambda>c d. (Inr 0, d)),
      run_elems = (\<lambda>c d. (Inr [1, 2], d)),
      run_attr = (\<lambda>c d. case c of
          GetAttribute el a \<Rightarrow>
            (Inr (Some (if el = 1 then ''https://chat.openai.com/c/aaa''
                        else ''https://chat.openai.com/c/bbb'')), d)
        | _ \<Rightarrow> (Inr None, d)),
      run_bool = (\<lambda>c d. (Inr True, d)),
      tick = (\<lambda>n d. d),
      list_of = (\<lambda>S. filter (\<lambda>j. j \<in> S) [JStr ''aaa'', JStr ''bbb'', JStr ''ccc''])\<rparr>"

definition st_sidebar :: "unit deleter" where
  "st_sidebar =
     \<lparr>deleted_chat_ids = {JStr ''aaa''}, current_error_chat_id = None,
      dark_mode_error_count = 0, browser = (),
      disk = \<lparr>contents = None, access = Reachable True True\<rparr>, trace = []\<rparr>"

text \<open>No deleted_chats.json, in a working directory that the process may not search.\<close>

definition fs_no_search :: filesystem where
  "fs_no_search = \<lparr>contents = None, access = NoSearch\<rparr>"

text \<open>\<open>ext P s s'\<close>: from \<open>s\<close> to \<open>s'\<close> the trace has only grown, by events that satisfy
  \<open>P\<close>, and neither the set of deleted ids nor the disk has changed.\<close>

definition ext :: "(event \<Rightarrow> bool) \<Rightarrow> 'd deleter \<Rightarrow> 'd deleter \<Rightarrow> bool" where
  "ext P s s' \<longleftrightarrow>
     deleted_chat_ids s' = deleted_chat_ids s \<and> disk s' = disk s \<and>
     take (length (trace s)) (trace s') = trace s \<and> list_all P (new_events s s')"

definition emits :: "(event \<Rightarrow> bool) \<Rightarrow> ('d, 'a) prog \<Rightarrow> bool" where
  "emits P m \<longleftrightarrow> (\<forall>s. ext P s (snd (m s)))"

text \<open>A page on which every step of a deletion works: the Delete item and the
  confirmation button are found, and afterwards the link of the chat is gone.\<close>

definition ui_happy :: "unit env" where
  "ui_happy =
     \<lparr>run_unit = (\<lambda>c d. (Inr (), d)),
      run_elem = (\<lambda>c d. case c of
          FindElement l sel \<Rightarrow>
            if l = CSS_SELECTOR \<and> sel \<noteq> delete_menu_item_selector
            then (Inl (NoSuchElementException ''Unable to locate element''), d)
            else (Inr 7, d)
        | _ \<Rightarrow> (Inr 5, d)),
      run_elems = (\<lambda>c d. (Inr [2], d)),
      run_attr = (\<lambda>c d. (Inr (Some ''https://chat.openai.com/c/bbb''), d)),
      run_bool = (\<lambda>c d. (Inr True, d)),
      tick = (\<lambda>n d. d),
      list_of = (\<lambda>S. filter (\<lambda>j. j \<in> S) [JStr ''aaa'', JStr ''bbb'', JStr ''ccc''])\<rparr>"

definition chat_bbb :: chat where
  "chat_bbb = \<lparr>chat_id = ''bbb'', element = 2\<rparr>"

text \<open>A page without any chat link: every wait times out.\<close>

definition ui_empty :: "unit env" where
  "ui_empty =
     \<lparr>run_unit = (\<lambda>c d. (Inr (), d)),
      run_elem = (\<lambda>c d. (Inl (TimeoutException ''Message: ''), d)),
      run_elems = (\<lambda>c d. (Inr [], d)),
      run_attr = (\<lambda>c d. (Inr None, d)),
      run_bool = (\<lambda>c d. (Inr True, d)),
      tick = (\<lambda>n d. d),
      list_of = (\<lambda>S. [])\<rparr>"

definition st_all_deleted :: "unit deleter" where
  "st_all_deleted = st_sidebar\<lparr>deleted_chat_ids := {JStr ''aaa'', JStr ''bbb''}\<rparr>"

text \<open>A page in dark mode whose overlay intercepts every click on a chat link, and a
  browser that has stopped answering page loads: \<open>driver.refresh()\<close> raises.\<close>

definition dark_overlay_message :: string where
  \<open>dark_overlay_message =
     ''Element <a> is not clickable at point (120,300) because another element <html class="dark"> obscures it''\<close>

definition ui_dark_dead :: "unit env" where
  "ui_dark_dead =
     \<lparr>run_unit = (\<lambda>c d. case c of
          Click el \<Rightarrow> (Inl (ElementClickInterceptedException dark_overlay_message), d)
        | Refresh \<Rightarrow> (Inl (OtherException ''WebDriverException: Failed to decode response from marionette''), d)
        | _ \<Rightarrow> (Inr (), d)),
      run_elem = (\<lambda>c d. (Inr 5, d)),
      run_elems = (\<lambda>c d. (Inr [2], d)),
      run_attr = (\<lambda>c d. (Inr (Some ''https://chat.openai.com/c/bbb''), d)),
      run_bool = (\<lambda>c d. (Inr True, d)),
      tick = (\<lambda>n d. d),
      list_of = (\<lambda>S. filter (\<lambda>j. j \<in> S) [JStr ''aaa'', JStr ''bbb'', JStr ''ccc''])\<rparr>"

text \<open>The poll of step 7, \<open>driver.find_element(By.CSS_SELECTOR, f'a[href*="{chat["id"]}"]')\<close>,
  and the number of polls in a trace that found the link.\<close>

definition link_poll :: "chat \<Rightarrow> cmd" where
  "link_poll chat = FindElement CSS_SELECTOR (chat_href_selector (chat_id chat))"

definition polls_found :: "chat \<Rightarrow> event list \<Rightarrow> nat" where
  "polls_found chat tr = length (filter (\<lambda>ev. ev = Did (link_poll chat)) tr)"

text \<open>\<open>calls c ev\<close>: the event \<open>ev\<close> is the call \<open>c\<close>, answered or failed.\<close>

fun calls :: "cmd \<Rightarrow> event \<Rightarrow> bool" where
  "calls c (Did c') = (c' = c)"
| "calls c (Failed c' e) = (c' = c)"
| "calls c ev = False"

text \<open>The events of the steps that neither reload the page, nor poll for the link of
  the chat, nor report the confirmation dialog.\<close>

definition plain_event :: "chat \<Rightarrow> event \<Rightarrow> bool" where
  "plain_event chat ev \<longleftrightarrow>
     \<not> calls Refresh ev \<and> \<not> calls (link_poll chat) ev \<and>
     ev \<noteq> Log INFO ''Found dialog with selector''"

text \<open>\<open>never_true m\<close>: \<open>m\<close> does not return True. \<open>reaches P1 P2 T m\<close>: a run of \<open>m\<close> either
  ends with events in \<open>P1\<close> and a result other than True, or comes after events in \<open>P2\<close>
  to \<open>T\<close>, whose outcome is then the outcome of \<open>m\<close>.\<close>

definition never_true :: "('d, bool) prog \<Rightarrow> bool" where
  "never_true m \<longleftrightarrow> (\<forall>s. fst (m s) \<noteq> Inr True)"

definition reaches ::
  "(event \<Rightarrow> bool) \<Rightarrow> (event \<Rightarrow> bool) \<Rightarrow> ('d, bool) prog \<Rightarrow> ('d, bool) prog \<Rightarrow> bool" where
  "reaches P1 P2 T m \<longleftrightarrow>
     (\<forall>s r s'. m s = (r, s') \<longrightarrow>
        (ext P1 s s' \<and> r \<noteq> Inr True) \<or> (\<exists>s0. ext P2 s s0 \<and> T s0 = (r, s')))"

text \<open>A page on which every step works but the link of the chat never goes away.\<close>

definition ui_link_stays :: "unit env" where
  "ui_link_stays =
     \<lparr>run_unit = (\<lambda>c d. (Inr (), d)),
      run_elem = (\<lambda>c d. case c of FindElement l sel \<Rightarrow> (Inr 7, d) | _ \<Rightarrow> (Inr 5, d)),
      run_elems = (\<lambda>c d. (Inr [2], d)),
      run_attr = (\<lambda>c d. (Inr (Some ''https://chat.openai.com/c/bbb''), d)),
      run_bool = (\<lambda>c d. (Inr True, d)),
      tick = (\<lambda>n d. d),
      list_of = (\<lambda>S. filter (\<lambda>j. j \<in> S) [JStr ''aaa'', JStr ''bbb'', JStr ''ccc''])\<rparr>"

text \<open>An event without the message of its exception.\<close>

fun without_message :: "exn \<Rightarrow> exn" where
  "without_message (TimeoutException m) = TimeoutException []"
| "without_message (NoSuchElementException m) = NoSuchElementException []"
| "without_message (ElementClickInterceptedException m) = ElementClickInterceptedException []"
| "without_message (StaleElementReferenceException m) = StaleElementReferenceException []"
| "without_message (OtherException m) = OtherException []"

fun shape :: "event \<Rightarrow> event" where
  "shape (Failed c e) = Failed c (without_message e)"
| "shape ev = ev"

text \<open>What step 6 does when no selector finds the confirmation button: on each of the
  five attempts (after a pause of one second from the second attempt on) one
  \<open>find_element\<close> per selector of \<open>button_selectors\<close>, in their order, each raising
  NoSuchElementException.\<close>

definition exhausted_attempts :: "event list" where
  "exhausted_attempts =
     concat (map (\<lambda>attempt. (if attempt > 0 then [Sleep 1] else []) @
                    map (\<lambda>selector. Failed (FindElement XPATH selector) (NoSuchElementException []))
                      button_selectors)
               [0..<5])"

text \<open>A page on which the confirmation dialog opens but has no button that any of the
  selectors finds.\<close>

definition ui_no_confirm_button :: "unit env" where
  "ui_no_confirm_button =
     \<lparr>run_unit = (\<lambda>c d. (Inr (), d)),
      run_elem = (\<lambda>c d. case c of
          FindElement l sel \<Rightarrow>
            if l = CSS_SELECTOR \<and> sel = delete_menu_item_selector
            then (Inr 7, d)
            else (Inl (NoSuchElementException ''Unable to locate element''), d)
        | _ \<Rightarrow> (Inr 5, d)),
      run_elems = (\<lambda>c d. (Inr [2], d)),
      run_attr = (\<lambda>c d. (Inr (Some ''https://chat.openai.com/c/bbb''), d)),
      run_bool = (\<lambda>c d. (Inr True, d)),
      tick = (\<lambda>n d. d),
      list_of = (\<lambda>S. filter (\<lambda>j. j \<in> S) [JStr ''aaa'', JStr ''bbb'', JStr ''ccc''])\<rparr>"





text \<open>An intercepted click on the options button, and an exception whose message has
  the dark-mode marker.\<close>

fun intercepted_click :: "event \<Rightarrow> bool" where
  "intercepted_click (Failed (MoveClick b) e) = is_click_intercepted e"
| "intercepted_click ev = False"

fun marked :: "event \<Rightarrow> bool" where
  "marked (Failed c e) = py_in dark_mode_marker (str_of e)"
| "marked ev = False"

definition dark_click_faults :: "event list \<Rightarrow> nat" where
  "dark_click_faults tr = length (filter (\<lambda>ev. intercepted_click ev \<and> marked ev) tr)"




section \<open>Properties\<close>

lemmas prog_defs = returnM_def raiseM_def bindM_def thenM_def catchM_def liftE_def
  logging_def logged_def sleep_def slept_def record_call_def
  call_unit_def call_elem_def call_elems_def call_attr_def call_bool_def

lemma call_attr_frame:
  "call_attr E c s = (r, s1) \<Longrightarrow> deleted_chat_ids s1 = deleted_chat_ids s \<and> disk s1 = disk s"
  by (auto simp: prog_defs split: prod.splits sum.splits)

lemma collect_chats_excludes:
  "collect_chats E els chats s = (r, s') \<Longrightarrow>
   \<forall>c \<in> set chats. JStr (chat_id c) \<notin> deleted_chat_ids s \<Longrightarrow>
   deleted_chat_ids s' = deleted_chat_ids s \<and>
   (\<exists>cs. r = Inr cs \<and> (\<forall>c \<in> set cs. JStr (chat_id c) \<notin> deleted_chat_ids s))"
proof (induction els arbitrary: chats s)
  case Nil
  then show ?case by auto
next
  case (Cons el els)
  obtain r1 s1 where c: "call_attr E (GetAttribute el ''href'') s = (r1, s1)"
    by (cases "call_attr E (GetAttribute el ''href'') s")
  from call_attr_frame[OF c] have fr: "deleted_chat_ids s1 = deleted_chat_ids s" by simp
  show ?case
    using Cons.prems c fr Cons.IH[of _ s1]
    by (auto split: sum.splits option.splits if_splits)
qed

text \<open>
  C1. Every chat returned by \<open>_get_chats\<close> has an id that is not in \<open>deleted_chat_ids\<close>;
  \<open>_get_chats\<close> itself always returns a list.
\<close>

theorem get_chats_excludes_deleted:
  assumes "get_chats E s = (r, s')"
  shows "\<exists>chats. r = Inr chats \<and> (\<forall>c \<in> set chats. JStr (chat_id c) \<notin> deleted_chat_ids s)"
proof -
  let ?w = "call_elem E (WaitPresence CSS_SELECTOR chat_link_selector WAIT_TIMEOUT) s"
  obtain r1 s1 where w: "?w = (r1, s1)" by (cases ?w)
  have d1: "deleted_chat_ids s1 = deleted_chat_ids s"
    using w by (auto simp: prog_defs split: prod.splits sum.splits)
  show ?thesis
  proof (cases r1)
    case (Inl e)
    with assms w show ?thesis
      by (auto simp: get_chats_def returnM_def bindM_def thenM_def catchM_def logging_def)
  next
    case (Inr b)
    let ?f = "call_elems E (FindElements CSS_SELECTOR chat_link_selector) s1"
    obtain r2 s2 where f: "?f = (r2, s2)" by (cases ?f)
    have d2: "deleted_chat_ids s2 = deleted_chat_ids s1"
      using f by (auto simp: prog_defs split: prod.splits sum.splits)
    show ?thesis
    proof (cases r2)
      case (Inl e)
      with assms w f Inr show ?thesis
        by (auto simp: get_chats_def returnM_def bindM_def thenM_def catchM_def logging_def)
    next
      case els: (Inr elements)
      obtain r3 s3 where c: "collect_chats E elements [] s2 = (r3, s3)"
        by (cases "collect_chats E elements [] s2")
      from collect_chats_excludes[OF c] obtain cs where
        cs: "r3 = Inr cs" "\<forall>c \<in> set cs. JStr (chat_id c) \<notin> deleted_chat_ids s2" by auto
      from assms w f Inr els c cs have "r = Inr cs"
        by (simp add: get_chats_def returnM_def bindM_def thenM_def catchM_def logging_def)
      with cs d1 d2 show ?thesis by simp
    qed
  qed
qed

theorem get_chats_excludes_deleted_witness:
  "fst (get_chats ui_sidebar st_sidebar) = Inr [\<lparr>chat_id = ''bbb'', element = 2\<rparr>] \<and>
   JStr ''aaa'' \<in> deleted_chat_ids st_sidebar \<and>
   JStr ''bbb'' \<notin> deleted_chat_ids st_sidebar"
proof -
  have run: "fst (get_chats ui_sidebar st_sidebar) = Inr [\<lparr>chat_id = ''bbb'', element = 2\<rparr>]"
    by (simp add: get_chats_def ui_sidebar_def st_sidebar_def prog_defs py_last_def
        chat_link_selector_def WAIT_TIMEOUT_def)
  obtain r s' where rs: "get_chats ui_sidebar st_sidebar = (r, s')"
    by (cases "get_chats ui_sidebar st_sidebar")
  from get_chats_excludes_deleted[OF rs] run rs show ?thesis
    by (auto simp: st_sidebar_def)
qed

lemma readable_contents [simp]: "readable (fs\<lparr>contents := c\<rparr>) = readable fs"
  by (simp add: readable_def)

lemma writable_contents [simp]: "writable (fs\<lparr>contents := c\<rparr>) = writable fs"
  by (simp add: writable_def)

lemma path_exists_reachable:
  "access (disk s) = Reachable r w \<Longrightarrow> path_exists s = (Inr (contents (disk s) \<noteq> None), s)"
  by (simp add: path_exists_def)

lemma path_exists_readable:
  "readable (disk s) \<Longrightarrow> path_exists s = (Inr (contents (disk s) \<noteq> None), s)"
  by (cases "access (disk s)") (simp_all add: readable_def path_exists_def)

lemma load_deleted_log_missing:
  "access (disk s) = Reachable r w \<Longrightarrow> contents (disk s) = None \<Longrightarrow>
   load_deleted_log s = (Inr (), s)"
  by (simp add: load_deleted_log_def bindM_def returnM_def path_exists_reachable)

lemma load_deleted_log_garbage:
  "access (disk s) = Reachable r w \<Longrightarrow> contents (disk s) = Some Garbage \<Longrightarrow>
   load_deleted_log s = (Inr (), logged WARNING ''Could not load deleted chats log'' s)"
  by (simp add: load_deleted_log_def open_read_def json_load_def path_exists_reachable prog_defs)

text \<open>When the path can be looked up, a missing file and a file that is not JSON leave
  \<open>deleted_chat_ids\<close> empty and raise nothing: nothing is logged for the missing file and
  one warning for the invalid one.\<close>

lemma load_missing_or_invalid_reachable:
  assumes "contents fs = None \<or> contents fs = Some Garbage" and "p \<noteq> []"
    and "access fs = Reachable r w"
  shows "\<exists>s'. init (Some p) d fs = (Inr (), s') \<and> deleted_chat_ids s' = {} \<and> disk s' = fs \<and>
           trace s' = (if contents fs = None then []
                       else [Log WARNING ''Could not load deleted chats log''])"
proof -
  let ?s0 = "\<lparr>deleted_chat_ids = {}, current_error_chat_id = None, dark_mode_error_count = 0,
               browser = d, disk = fs, trace = []\<rparr>"
  have i: "init (Some p) d fs = load_deleted_log ?s0"
    using assms(2) by (simp add: init_def Let_def)
  have a: "access (disk ?s0) = Reachable r w" using assms(3) by simp
  show ?thesis
  proof (cases "contents fs = None")
    case True
    then have "contents (disk ?s0) = None" by simp
    from load_deleted_log_missing[OF a this] i True show ?thesis by simp
  next
    case False
    with assms(1) have "contents (disk ?s0) = Some Garbage" by simp
    from load_deleted_log_garbage[OF a this] i False show ?thesis by (simp add: logged_def)
  qed
qed

text \<open>
  C5. With deleted_chats.json missing, \<open>__init__\<close> (which calls \<open>_load_deleted_log\<close>) does
  raise when \<open>stat\<close> on the path is denied: \<open>Path(DELETED_LOG_FILE).exists()\<close> stands
  before the \<open>try\<close>, and its PermissionError leaves the constructor.
\<close>

theorem init_raises_when_stat_denied:
  "fst (init (Some ''/home/u/.mozilla/firefox/x.default'') () fs_no_search) =
     Inl (OtherException ''PermissionError'')"
  by (simp add: init_def Let_def load_deleted_log_def bindM_def path_exists_def fs_no_search_def)

lemma hashable_strings:
  "\<forall>j \<in> set xs. \<exists>cid. j = JStr cid \<Longrightarrow> list_all hashable xs"
  by (induction xs) auto

lemma save_deleted_log_writable:
  "writable (disk s) \<Longrightarrow>
   save_deleted_log E s =
     (Inr (), s\<lparr>disk := (disk s)\<lparr>contents := Some (Doc (JArr (list_of E (deleted_chat_ids s))))\<rparr>\<rparr>)"
  by (simp add: save_deleted_log_def open_write_def json_dump_def catchM_def thenM_def bindM_def)


lemma load_deleted_log_doc:
  "contents (disk t) = Some (Doc (JArr xs)) \<Longrightarrow> readable (disk t) \<Longrightarrow> list_all hashable xs \<Longrightarrow>
   load_deleted_log t =
     (Inr (), logged INFO ''Loaded deleted chat IDs'' (t\<lparr>deleted_chat_ids := set xs\<rparr>))"
  by (simp add: load_deleted_log_def open_read_def json_load_def set_deleted_chat_ids_def
      path_exists_readable catchM_def thenM_def bindM_def liftE_def logging_def)

text \<open>
  C9. Writing a set of string identifiers with \<open>_save_deleted_log\<close> and reading the file
  back with \<open>_load_deleted_log\<close> gives the same set, whatever order \<open>list(...)\<close> enumerates
  the set in, on a disk that can be written and read.
\<close>

theorem save_load_roundtrip:
  assumes "set (list_of E (deleted_chat_ids s)) = deleted_chat_ids s"
    and "\<forall>j \<in> deleted_chat_ids s. \<exists>cid. j = JStr cid"
    and "writable (disk s)" and "readable (disk s)"
    and "save_deleted_log E s = (r, s1)"
    and "disk t = disk s1"
    and "load_deleted_log t = (r', t')"
  shows "r = Inr () \<and> r' = Inr () \<and> deleted_chat_ids t' = deleted_chat_ids s"
proof -
  let ?xs = "list_of E (deleted_chat_ids s)"
  from save_deleted_log_writable[OF assms(3), of E] assms(5)
  have r: "r = Inr ()" and s1: "s1 = s\<lparr>disk := (disk s)\<lparr>contents := Some (Doc (JArr ?xs))\<rparr>\<rparr>"
    by simp_all
  have c: "contents (disk t) = Some (Doc (JArr ?xs))" and rd: "readable (disk t)"
    using assms(4,6) s1 by simp_all
  have h: "list_all hashable ?xs"
    using assms(1,2) by (intro hashable_strings) simp
  from load_deleted_log_doc[OF c rd h] assms(7)
  have r': "r' = Inr ()" and t': "t' = logged INFO ''Loaded deleted chat IDs'' (t\<lparr>deleted_chat_ids := set ?xs\<rparr>)"
    by simp_all
  have "deleted_chat_ids t' = set ?xs"
    unfolding t' by (simp add: logged_def)
  with r r' assms(1) show ?thesis by simp
qed

theorem save_load_roundtrip_witness:
  "fst (save_deleted_log ui_sidebar st_sidebar) = Inr () \<and>
   fst (load_deleted_log (st_sidebar\<lparr>deleted_chat_ids := {},
          disk := disk (snd (save_deleted_log ui_sidebar st_sidebar))\<rparr>)) = Inr () \<and>
   deleted_chat_ids (snd (load_deleted_log (st_sidebar\<lparr>deleted_chat_ids := {},
          disk := disk (snd (save_deleted_log ui_sidebar st_sidebar))\<rparr>))) = {JStr ''aaa''}"
proof -
  let ?s1 = "snd (save_deleted_log ui_sidebar st_sidebar)"
  let ?t = "st_sidebar\<lparr>deleted_chat_ids := {}, disk := disk ?s1\<rparr>"
  have a1: "set (list_of ui_sidebar (deleted_chat_ids st_sidebar)) = deleted_chat_ids st_sidebar"
    by (simp add: ui_sidebar_def st_sidebar_def)
  have a2: "\<forall>j \<in> deleted_chat_ids st_sidebar. \<exists>cid. j = JStr cid"
    by (simp add: st_sidebar_def)
  have a3: "writable (disk st_sidebar)" and a4: "readable (disk st_sidebar)"
    by (simp_all add: st_sidebar_def readable_def writable_def)
  have a5: "save_deleted_log ui_sidebar st_sidebar = (fst (save_deleted_log ui_sidebar st_sidebar), ?s1)"
    by simp
  have a6: "disk ?t = disk ?s1" by simp
  have a7: "load_deleted_log ?t = (fst (load_deleted_log ?t), snd (load_deleted_log ?t))"
    by simp
  have d: "deleted_chat_ids st_sidebar = {JStr ''aaa''}"
    by (simp add: st_sidebar_def)
  from save_load_roundtrip[OF a1 a2 a3 a4 a5 a6 a7] d show ?thesis by simp
qed

lemma ext_iff:
  "ext P s s' \<longleftrightarrow>
     deleted_chat_ids s' = deleted_chat_ids s \<and> disk s' = disk s \<and>
     (\<exists>tr. trace s' = trace s @ tr \<and> list_all P tr)"
proof -
  have "(take (length (trace s)) (trace s') = trace s \<and> list_all P (drop (length (trace s)) (trace s')))
        \<longleftrightarrow> (\<exists>tr. trace s' = trace s @ tr \<and> list_all P tr)"
  proof
    assume a: "take (length (trace s)) (trace s') = trace s \<and> list_all P (drop (length (trace s)) (trace s'))"
    have "trace s' = take (length (trace s)) (trace s') @ drop (length (trace s)) (trace s')"
      by simp
    with a have "trace s' = trace s @ drop (length (trace s)) (trace s')" by simp
    with a show "\<exists>tr. trace s' = trace s @ tr \<and> list_all P tr" by blast
  next
    assume "\<exists>tr. trace s' = trace s @ tr \<and> list_all P tr"
    then show "take (length (trace s)) (trace s') = trace s \<and> list_all P (drop (length (trace s)) (trace s'))"
      by auto
  qed
  then show ?thesis by (simp add: ext_def new_events_def)
qed

lemma ext_refl: "ext P s s"
  by (simp add: ext_iff)

lemma ext_trans: "ext P s s1 \<Longrightarrow> ext P s1 s2 \<Longrightarrow> ext P s s2"
  by (auto simp: ext_iff)

lemma ext_mono: "ext P s s' \<Longrightarrow> (\<And>ev. P ev \<Longrightarrow> Q ev) \<Longrightarrow> ext Q s s'"
  by (auto simp: ext_iff list_all_iff)

lemma ext_trace: "ext P s s' \<Longrightarrow> trace s' = trace s @ new_events s s'"
  by (auto simp: ext_iff new_events_def)

lemma ext_events: "ext P s s' \<Longrightarrow> list_all P (new_events s s')"
  by (simp add: ext_def)

lemma ext_deleted: "ext P s s' \<Longrightarrow> deleted_chat_ids s' = deleted_chat_ids s"
  by (simp add: ext_def)

lemma ext_disk: "ext P s s' \<Longrightarrow> disk s' = disk s"
  by (simp add: ext_def)


lemma new_events_append: "trace s' = trace s @ tr \<Longrightarrow> new_events s s' = tr"
  by (simp add: new_events_def)

lemma ext_logged: "P (Log l m) \<Longrightarrow> ext P s (logged l m s)"
  by (simp add: ext_iff logged_def)

lemma ext_slept: "P (Sleep n) \<Longrightarrow> ext P s (slept E n s)"
  by (simp add: ext_iff slept_def)

lemma ext_record_call:
  "P (Did c) \<Longrightarrow> (\<And>e. P (Failed c e)) \<Longrightarrow> ext P s (snd (record_call c r s))"
  by (cases r; cases "fst r") (simp_all add: ext_iff record_call_def)

lemma ext_call_unit: "P (Did c) \<Longrightarrow> (\<And>e. P (Failed c e)) \<Longrightarrow> ext P s (snd (call_unit E c s))"
  unfolding call_unit_def by (rule ext_record_call)

lemma ext_call_elem: "P (Did c) \<Longrightarrow> (\<And>e. P (Failed c e)) \<Longrightarrow> ext P s (snd (call_elem E c s))"
  unfolding call_elem_def by (rule ext_record_call)

lemma ext_call_elems: "P (Did c) \<Longrightarrow> (\<And>e. P (Failed c e)) \<Longrightarrow> ext P s (snd (call_elems E c s))"
  unfolding call_elems_def by (rule ext_record_call)

lemma ext_call_attr: "P (Did c) \<Longrightarrow> (\<And>e. P (Failed c e)) \<Longrightarrow> ext P s (snd (call_attr E c s))"
  unfolding call_attr_def by (rule ext_record_call)

lemma ext_call_bool: "P (Did c) \<Longrightarrow> (\<And>e. P (Failed c e)) \<Longrightarrow> ext P s (snd (call_bool E c s))"
  unfolding call_bool_def by (rule ext_record_call)

lemma emitsD: "emits P m \<Longrightarrow> m s = (r, s') \<Longrightarrow> ext P s s'"
  by (auto simp: emits_def dest: spec[of _ s])

lemma emitsI: "(\<And>s. ext P s (snd (m s))) \<Longrightarrow> emits P m"
  by (simp add: emits_def)

lemma emits_return: "emits P (returnM a)"
  by (simp add: emits_def returnM_def ext_refl)

lemma emits_liftE: "emits P (liftE r)"
  by (simp add: emits_def liftE_def ext_refl)

lemma emits_bind:
  assumes "emits P m" and "\<And>a. emits P (f a)"
  shows "emits P (bindM m f)"
proof (rule emitsI)
  fix s
  obtain r s1 where m: "m s = (r, s1)" by (cases "m s")
  from emitsD[OF assms(1) m] have e1: "ext P s s1" .
  show "ext P s (snd (bindM m f s))"
  proof (cases r)
    case (Inl e)
    with m e1 show ?thesis by (simp add: bindM_def)
  next
    case (Inr a)
    obtain r2 s2 where f: "f a s1 = (r2, s2)" by (cases "f a s1")
    from emitsD[OF assms(2) f] e1 have "ext P s s2" by (blast intro: ext_trans)
    with m Inr f show ?thesis by (simp add: bindM_def)
  qed
qed

lemma emits_then: "emits P m \<Longrightarrow> emits P k \<Longrightarrow> emits P (thenM m k)"
  unfolding thenM_def by (rule emits_bind)

lemma emits_catch:
  assumes "emits P m" and "\<And>e. emits P (h e)"
  shows "emits P (catchM m h)"
proof (rule emitsI)
  fix s
  obtain r s1 where m: "m s = (r, s1)" by (cases "m s")
  from emitsD[OF assms(1) m] have e1: "ext P s s1" .
  show "ext P s (snd (catchM m h s))"
  proof (cases r)
    case (Inr a)
    with m e1 show ?thesis by (simp add: catchM_def)
  next
    case (Inl e)
    obtain r2 s2 where f: "h e s1 = (r2, s2)" by (cases "h e s1")
    from emitsD[OF assms(2) f] e1 have "ext P s s2" by (blast intro: ext_trans)
    with m Inl f show ?thesis by (simp add: catchM_def)
  qed
qed

lemma emits_if: "emits P m \<Longrightarrow> emits P k \<Longrightarrow> emits P (if b then m else k)"
  by simp

lemma emits_case_option:
  "emits P m \<Longrightarrow> (\<And>a. emits P (f a)) \<Longrightarrow> emits P (case x of None \<Rightarrow> m | Some a \<Rightarrow> f a)"
  by (cases x) simp_all

lemma emits_call_unit: "P (Did c) \<Longrightarrow> (\<And>e. P (Failed c e)) \<Longrightarrow> emits P (call_unit E c)"
  by (rule emitsI) (rule ext_call_unit)

lemma emits_call_elem: "P (Did c) \<Longrightarrow> (\<And>e. P (Failed c e)) \<Longrightarrow> emits P (call_elem E c)"
  by (rule emitsI) (rule ext_call_elem)

lemma emits_call_elems: "P (Did c) \<Longrightarrow> (\<And>e. P (Failed c e)) \<Longrightarrow> emits P (call_elems E c)"
  by (rule emitsI) (rule ext_call_elems)

lemma emits_call_bool: "P (Did c) \<Longrightarrow> (\<And>e. P (Failed c e)) \<Longrightarrow> emits P (call_bool E c)"
  by (rule emitsI) (rule ext_call_bool)

lemma emits_sleep: "P (Sleep n) \<Longrightarrow> emits P (sleep E n)"
  by (rule emitsI) (simp add: sleep_def ext_slept)

lemma emits_logging: "P (Log l m) \<Longrightarrow> emits P (logging l m)"
  by (rule emitsI) (simp add: logging_def ext_logged)

lemma emits_track_chat: "emits P (track_chat cid)"
  by (rule emitsI) (simp add: track_chat_def ext_iff)

lemma emits_incr: "emits P incr_dark_mode_error_count"
  by (rule emitsI) (simp add: incr_dark_mode_error_count_def ext_iff)

lemma emits_reset: "emits P reset_dark_mode_error_count"
  by (rule emitsI) (simp add: reset_dark_mode_error_count_def ext_iff)

lemma emits_read: "emits P read_dark_mode_error_count"
  by (rule emitsI) (simp add: read_dark_mode_error_count_def ext_iff)

lemmas emits_intros =
  emits_return emits_liftE emits_bind emits_then emits_catch emits_if emits_case_option
  emits_call_unit emits_call_elem emits_call_elems emits_call_bool emits_sleep emits_logging
  emits_track_chat emits_incr emits_reset emits_read

lemma emits_dark_mode_handler:
  assumes "P (Log WARNING ''Dark mode error count for chat'')"
    and "P (Log WARNING ''Refreshing page due to multiple dark mode errors'')"
    and "P (Did Refresh)" and "\<And>e. P (Failed Refresh e)" and "P (Sleep 3)"
    and "P (Log ERROR ''Unexpected error'')"
  shows "emits P (dark_mode_handler E chat e)"
  unfolding dark_mode_handler_def
  by (intro emits_intros assms)

lemma emits_click_options:
  assumes "P (Did (MoveClick b))" and "\<And>e. P (Failed (MoveClick b) e)" and "P (Sleep 1)"
    and "\<And>e. emits P (dark_mode_handler E chat e)"
  shows "emits P (click_options E chat b)"
proof (rule emitsI)
  fix s
  let ?m = "thenM (call_unit E (MoveClick b)) (sleep E 1)"
  have em: "emits P ?m"
    by (intro emits_intros assms)
  obtain r s1 where m: "?m s = (r, s1)" by (cases "?m s")
  from emitsD[OF em m] have e1: "ext P s s1" .
  show "ext P s (snd (click_options E chat b s))"
  proof (cases r)
    case (Inr u)
    with m e1 show ?thesis by (simp add: click_options_def)
  next
    case (Inl e)
    let ?h = "bindM (dark_mode_handler E chat e) (\<lambda>b. returnM (Some b))"
    have eh: "emits P ?h" by (intro emits_intros assms)
    obtain r2 s2 where h: "?h s1 = (r2, s2)" by (cases "?h s1")
    from emitsD[OF eh h] e1 have "ext P s s2" by (blast intro: ext_trans)
    with m Inl h e1 show ?thesis by (simp add: click_options_def)
  qed
qed

lemma emits_find_delete_button_in_menu:
  assumes "P (Did (WaitPresence CSS_SELECTOR delete_menu_item_selector WAIT_TIMEOUT))"
    and "\<And>e. P (Failed (WaitPresence CSS_SELECTOR delete_menu_item_selector WAIT_TIMEOUT) e)"
    and "P (Did (FindElement CSS_SELECTOR delete_menu_item_selector))"
    and "\<And>e. P (Failed (FindElement CSS_SELECTOR delete_menu_item_selector) e)"
    and "P (Log WARNING ''Error finding menu delete button'')"
  shows "emits P (find_delete_button_in_menu E)"
  unfolding find_delete_button_in_menu_def
  by (intro emits_intros assms)

lemma ext_find_dialog:
  assumes "\<And>sel. P (Did (WaitPresence CSS_SELECTOR sel 3))"
    and "\<And>sel e. P (Failed (WaitPresence CSS_SELECTOR sel 3) e)"
    and "P (Log INFO ''Found dialog with selector'')"
  shows "ext P s (snd (find_dialog E sels s))"
proof (induction sels arbitrary: s)
  case Nil
  show ?case by (simp add: ext_refl)
next
  case (Cons sel sels)
  let ?c = "call_elem E (WaitPresence CSS_SELECTOR sel 3) s"
  obtain r s1 where c: "?c = (r, s1)" by (cases ?c)
  have "ext P s (snd ?c)"
    by (rule ext_call_elem) (rule assms(1), rule assms(2))
  with c have e1: "ext P s s1" by simp
  show ?case
  proof (cases r)
    case (Inr d)
    have "ext P s1 (logged INFO ''Found dialog with selector'' s1)"
      by (rule ext_logged) (rule assms(3))
    with e1 have "ext P s (logged INFO ''Found dialog with selector'' s1)"
      by (rule ext_trans)
    with c Inr show ?thesis by simp
  next
    case (Inl e)
    show ?thesis
    proof (cases "is_timeout e")
      case True
      from e1 Cons.IH[of s1] have "ext P s (snd (find_dialog E sels s1))"
        by (rule ext_trans)
      with c Inl True show ?thesis by simp
    next
      case False
      with c Inl e1 show ?thesis by simp
    qed
  qed
qed

lemma ext_try_selectors:
  assumes "\<And>sel. P (Did (FindElement XPATH sel))"
    and "\<And>sel e. P (Failed (FindElement XPATH sel) e)"
    and "\<And>b. P (Did (Click b))" and "\<And>b e. P (Failed (Click b) e)"
    and "P (Log ERROR ''Error with selector'')"
  shows "ext P s (snd (try_selectors E sels s))"
proof (induction sels arbitrary: s)
  case Nil
  show ?case by (simp add: ext_refl)
next
  case (Cons sel sels)
  let ?m = "bindM (call_elem E (FindElement XPATH sel)) (\<lambda>confirm_button.
             call_unit E (Click confirm_button))"
  have em: "emits P ?m" by (intro emits_intros assms)
  obtain r s1 where m: "?m s = (r, s1)" by (cases "?m s")
  from emitsD[OF em m] have e1: "ext P s s1" .
  show ?case
  proof (cases r)
    case (Inr u)
    with m e1 show ?thesis by simp
  next
    case (Inl e)
    show ?thesis
    proof (cases "is_no_such_element e")
      case True
      from e1 Cons.IH[of s1] have "ext P s (snd (try_selectors E sels s1))"
        by (rule ext_trans)
      with m Inl True show ?thesis by simp
    next
      case False
      have "ext P s1 (logged ERROR ''Error with selector'' s1)"
        by (rule ext_logged) (rule assms(5))
      with e1 have "ext P s (logged ERROR ''Error with selector'' s1)" by (rule ext_trans)
      from this Cons.IH[of "logged ERROR ''Error with selector'' s1"]
      have "ext P s (snd (try_selectors E sels (logged ERROR ''Error with selector'' s1)))"
        by (rule ext_trans)
      with m Inl False show ?thesis by simp
    qed
  qed
qed

lemma ext_confirm_attempts:
  assumes "\<And>sel. P (Did (FindElement XPATH sel))"
    and "\<And>sel e. P (Failed (FindElement XPATH sel) e)"
    and "\<And>b. P (Did (Click b))" and "\<And>b e. P (Failed (Click b) e)"
    and "P (Log ERROR ''Error with selector'')" and "P (Sleep 1)"
  shows "ext P s (snd (confirm_attempts E attempts s))"
proof (induction attempts arbitrary: s)
  case Nil
  show ?case by (simp add: ext_refl)
next
  case (Cons attempt rest)
  let ?s0 = "if attempt > 0 then slept E 1 s else s"
  have e0: "ext P s ?s0"
    using assms(6) by (simp add: ext_slept ext_refl)
  obtain r s1 where t: "try_selectors E button_selectors ?s0 = (r, s1)"
    by (cases "try_selectors E button_selectors ?s0")
  from ext_try_selectors[of P ?s0 E button_selectors, OF assms(1-5)] t
  have "ext P ?s0 s1" by simp
  with e0 have e1: "ext P s s1" by (rule ext_trans)
  show ?case
  proof (cases r)
    case (Inl e)
    with t e1 show ?thesis by simp
  next
    case (Inr success)
    show ?thesis
    proof (cases success)
      case True
      with t Inr e1 show ?thesis by simp
    next
      case False
      from e1 Cons.IH[of s1] have "ext P s (snd (confirm_attempts E rest s1))"
        by (rule ext_trans)
      with t Inr False show ?thesis by simp
    qed
  qed
qed














lemma range5: "[0..<5] = [0, 1, 2, 3, 4::nat]"
  by code_simp

lemma ui_happy_simps:
  "run_unit ui_happy c d = (Inr (), d)"
  "run_elem ui_happy (FindElement XPATH sel) d = (Inr 7, d)"
  "run_elem ui_happy (FindElement CSS_SELECTOR sel) d =
     (if sel \<noteq> delete_menu_item_selector
      then (Inl (NoSuchElementException ''Unable to locate element''), d) else (Inr 7, d))"
  "run_elem ui_happy (WaitPresence l sel n) d = (Inr 5, d)"
  "run_elem ui_happy (FindChild el l sel) d = (Inr 5, d)"
  "run_elem ui_happy (WaitVisibleIn el l sel n) d = (Inr 5, d)"
  "run_bool ui_happy c d = (Inr True, d)"
  "tick ui_happy n d = d"
  by (simp_all add: ui_happy_def)

lemma href_selector_not_menu_item: "chat_href_selector cid \<noteq> delete_menu_item_selector"
  by (simp add: chat_href_selector_def delete_menu_item_selector_def)

lemmas delete_chat_defs =
  delete_chat_def outer_handler_def delete_chat_body_def open_options_menu_def click_options_def
  delete_and_confirm_def confirm_and_verify_def find_delete_button_in_menu_def
  dark_mode_handler_def track_chat_def incr_dark_mode_error_count_def
  reset_dark_mode_error_count_def read_dark_mode_error_count_def
  dialog_selectors_def button_selectors_def range5 verify_gone.simps

lemma delete_chat_happy:
  "fst (delete_chat ui_happy chat_bbb st_sidebar) = Inr True"
  by (simp add: delete_chat_defs ui_happy_simps href_selector_not_menu_item
      chat_bbb_def st_sidebar_def prog_defs)





lemma py_split_nonempty: "py_split sep s \<noteq> []"
  by (induction s) (auto split: list.splits)

lemma py_last_split: "py_last (py_split sep s) = Some (last (py_split sep s))"
  using py_split_nonempty[of sep s] by (cases "py_split sep s") (simp_all add: py_last_def)

lemma call_attr_result:
  assumes "call_attr E c s = (Inr a, s1)"
  shows "\<exists>d'. run_attr E c (browser s) = (Inr a, d')"
proof -
  obtain r d where ra: "run_attr E c (browser s) = (r, d)" by (cases "run_attr E c (browser s)")
  with assms have "r = Inr a"
    by (cases r) (simp_all add: call_attr_def record_call_def)
  with ra show ?thesis by simp
qed

lemma collect_chats_all_deleted:
  assumes del: "\<And>el d href d'. run_attr E (GetAttribute el ''href'') d = (Inr (Some href), d') \<Longrightarrow>
                 JStr (last (py_split CHR ''/'' href)) \<in> D"
  shows "deleted_chat_ids s = D \<Longrightarrow> fst (collect_chats E els [] s) = Inr []"
proof (induction els arbitrary: s)
  case Nil
  show ?case by simp
next
  case (Cons el els)
  let ?c = "call_attr E (GetAttribute el ''href'') s"
  obtain r1 s1 where c: "?c = (r1, s1)" by (cases ?c)
  from call_attr_frame[OF c] Cons.prems have d1: "deleted_chat_ids s1 = D" by simp
  note ih = Cons.IH[OF d1]
  show ?case
  proof (cases r1)
    case (Inl e)
    with c ih show ?thesis by simp
  next
    case (Inr a)
    show ?thesis
    proof (cases a)
      case None
      with c Inr ih show ?thesis by simp
    next
      case (Some href)
      from call_attr_result[of E "GetAttribute el ''href''" s "Some href" s1] c Inr Some
      obtain d' where "run_attr E (GetAttribute el ''href'') (browser s) = (Inr (Some href), d')"
        by auto
      from del[OF this] d1 have "JStr (last (py_split CHR ''/'' href)) \<in> deleted_chat_ids s1"
        by simp
      with c Inr Some ih show ?thesis by (simp add: py_last_split)
    qed
  qed
qed

lemma get_chats_timeout:
  assumes "run_elem E (WaitPresence CSS_SELECTOR chat_link_selector WAIT_TIMEOUT) (browser s) =
             (Inl (TimeoutException m), d')"
  shows "fst (get_chats E s) = Inr []"
  using assms
  by (simp add: get_chats_def catchM_def thenM_def bindM_def returnM_def logging_def
      call_elem_def record_call_def)

lemma get_chats_all_deleted:
  assumes del: "\<And>el d href d'. run_attr E (GetAttribute el ''href'') d = (Inr (Some href), d') \<Longrightarrow>
                 JStr (last (py_split CHR ''/'' href)) \<in> deleted_chat_ids s"
  shows "fst (get_chats E s) = Inr []"
proof -
  let ?w = "call_elem E (WaitPresence CSS_SELECTOR chat_link_selector WAIT_TIMEOUT) s"
  obtain r1 s1 where w: "?w = (r1, s1)" by (cases ?w)
  have "ext (\<lambda>ev. True) s (snd ?w)" by (rule ext_call_elem) simp_all
  with w have d1: "deleted_chat_ids s1 = deleted_chat_ids s" by (simp add: ext_def)
  show ?thesis
  proof (cases r1)
    case (Inl e)
    with w show ?thesis
      by (simp add: get_chats_def returnM_def bindM_def thenM_def catchM_def logging_def)
  next
    case (Inr b)
    let ?f = "call_elems E (FindElements CSS_SELECTOR chat_link_selector) s1"
    obtain r2 s2 where f: "?f = (r2, s2)" by (cases ?f)
    have "ext (\<lambda>ev. True) s1 (snd ?f)" by (rule ext_call_elems) simp_all
    with f d1 have d2: "deleted_chat_ids s2 = deleted_chat_ids s" by (simp add: ext_def)
    show ?thesis
    proof (cases r2)
      case (Inl e)
      with w f Inr show ?thesis
        by (simp add: get_chats_def returnM_def bindM_def thenM_def catchM_def logging_def)
    next
      case els: (Inr elements)
      have "fst (collect_chats E elements [] s2) = Inr []"
        by (rule collect_chats_all_deleted[OF del d2])
      then obtain s3 where "collect_chats E elements [] s2 = (Inr [], s3)"
        by (cases "collect_chats E elements [] s2") simp
      with w f Inr els show ?thesis
        by (simp add: get_chats_def returnM_def bindM_def thenM_def catchM_def)
    qed
  qed
qed

lemma main_loop_stops:
  assumes "fst (get_chats E s) = Inr []"
  shows "main_loop E s = Some (Inr (), logged INFO ''No more chats to delete'' (snd (get_chats E s)))"
proof -
  from assms obtain s1 where g: "get_chats E s = (Inr [], s1)"
    by (cases "get_chats E s") simp
  then show ?thesis by (subst main_loop.simps) simp
qed

text \<open>
  C8. \<open>_get_chats\<close> returns the empty list when the wait for a chat link times out, and
  also when every link on the page has an id that is already in \<open>deleted_chat_ids\<close>; and
  when \<open>_get_chats\<close> returns the empty list the \<open>while True\<close> loop of \<open>run\<close> logs
  "No more chats to delete" and ends without another scan.
\<close>

theorem no_chats_stops:
  "((\<exists>m d'. run_elem E (WaitPresence CSS_SELECTOR chat_link_selector WAIT_TIMEOUT) (browser s) =
              (Inl (TimeoutException m), d')) \<longrightarrow> fst (get_chats E s) = Inr []) \<and>
   ((\<forall>el d href d'. run_attr E (GetAttribute el ''href'') d = (Inr (Some href), d') \<longrightarrow>
        JStr (last (py_split CHR ''/'' href)) \<in> deleted_chat_ids s) \<longrightarrow>
      fst (get_chats E s) = Inr []) \<and>
   (fst (get_chats E s) = Inr [] \<longrightarrow>
      main_loop E s =
        Some (Inr (), logged INFO ''No more chats to delete'' (snd (get_chats E s))))"
proof (intro conjI impI)
  assume "\<exists>m d'. run_elem E (WaitPresence CSS_SELECTOR chat_link_selector WAIT_TIMEOUT) (browser s) =
              (Inl (TimeoutException m), d')"
  then obtain m d' where
    "run_elem E (WaitPresence CSS_SELECTOR chat_link_selector WAIT_TIMEOUT) (browser s) =
       (Inl (TimeoutException m), d')" by blast
  then show "fst (get_chats E s) = Inr []" by (rule get_chats_timeout)
next
  assume a: "\<forall>el d href d'. run_attr E (GetAttribute el ''href'') d = (Inr (Some href), d') \<longrightarrow>
        JStr (last (py_split CHR ''/'' href)) \<in> deleted_chat_ids s"
  show "fst (get_chats E s) = Inr []"
    by (rule get_chats_all_deleted) (use a in blast)
next
  assume "fst (get_chats E s) = Inr []"
  then show "main_loop E s =
        Some (Inr (), logged INFO ''No more chats to delete'' (snd (get_chats E s)))"
    by (rule main_loop_stops)
qed

theorem no_chats_stops_witness:
  "(\<exists>s'. main_loop ui_empty st_sidebar = Some (Inr (), s') \<and>
      trace s' =
        [Failed (WaitPresence CSS_SELECTOR chat_link_selector WAIT_TIMEOUT)
           (TimeoutException ''Message: ''),
         Log ERROR ''Error getting chats'', Log INFO ''No more chats to delete'']) \<and>
   (\<exists>s'. main_loop ui_sidebar st_all_deleted = Some (Inr (), s'))"
proof -
  have t: "\<exists>m d'. run_elem ui_empty (WaitPresence CSS_SELECTOR chat_link_selector WAIT_TIMEOUT)
             (browser st_sidebar) = (Inl (TimeoutException m), d')"
    by (simp add: ui_empty_def)
  have g: "snd (get_chats ui_empty st_sidebar) =
      st_sidebar\<lparr>trace := [Failed (WaitPresence CSS_SELECTOR chat_link_selector WAIT_TIMEOUT)
           (TimeoutException ''Message: ''), Log ERROR ''Error getting chats'']\<rparr>"
    by (simp add: get_chats_def catchM_def thenM_def bindM_def returnM_def logging_def logged_def
        call_elem_def record_call_def ui_empty_def st_sidebar_def)
  have d: "\<forall>el d href d'. run_attr ui_sidebar (GetAttribute el ''href'') d = (Inr (Some href), d') \<longrightarrow>
        JStr (last (py_split CHR ''/'' href)) \<in> deleted_chat_ids st_all_deleted"
    by (auto simp: ui_sidebar_def st_all_deleted_def split: if_splits)
  from no_chats_stops[of ui_empty st_sidebar] t g
  have 1: "\<exists>s'. main_loop ui_empty st_sidebar = Some (Inr (), s') \<and>
      trace s' =
        [Failed (WaitPresence CSS_SELECTOR chat_link_selector WAIT_TIMEOUT)
           (TimeoutException ''Message: ''),
         Log ERROR ''Error getting chats'', Log INFO ''No more chats to delete'']"
    by (simp add: logged_def)
  from no_chats_stops[of ui_sidebar st_all_deleted] d
  have 2: "\<exists>s'. main_loop ui_sidebar st_all_deleted = Some (Inr (), s')"
    by simp
  from 1 2 show ?thesis by simp
qed

lemma dark_overlay_marked: "py_in dark_mode_marker dark_overlay_message"
  by (simp add: dark_mode_marker_def dark_overlay_message_def)

lemma ui_dark_dead_simps:
  "run_unit ui_dark_dead (Click el) d = (Inl (ElementClickInterceptedException dark_overlay_message), d)"
  "run_unit ui_dark_dead Refresh d =
     (Inl (OtherException ''WebDriverException: Failed to decode response from marionette''), d)"
  "run_unit ui_dark_dead (ExecuteScript scr) d = (Inr (), d)"
  "tick ui_dark_dead n d = d"
  by (simp_all add: ui_dark_dead_def)

text \<open>
  C7. \<open>_delete_chat\<close> does let an exception through: the \<open>driver.refresh()\<close> of the outer
  handler is not protected. On a fresh deleter, with the dark overlay intercepting the
  click on the chat link and a browser that fails to reload, four calls return False
  and the fifth raises the exception of \<open>refresh\<close>.
\<close>

theorem delete_chat_lets_reload_fault_through:
  "fst (delete_chat_times 5 ui_dark_dead chat_bbb st_sidebar) =
     [Inr False, Inr False, Inr False, Inr False,
      Inl (OtherException ''WebDriverException: Failed to decode response from marionette'')]"
  by (simp add: eval_nat_numeral delete_chat_defs ui_dark_dead_simps dark_overlay_marked
      chat_bbb_def st_sidebar_def prog_defs)

lemma emits_mono: "emits P m \<Longrightarrow> (\<And>ev. P ev \<Longrightarrow> Q ev) \<Longrightarrow> emits Q m"
  by (rule emitsI) (auto simp: emits_def intro: ext_mono)

lemma never_trueD: "never_true m \<Longrightarrow> m s = (r, s') \<Longrightarrow> r \<noteq> Inr True"
  by (auto simp: never_true_def dest: spec[of _ s])

lemma never_true_return: "never_true (returnM False)"
  by (simp add: never_true_def returnM_def)

lemma never_true_bind: "(\<And>a. never_true (f a)) \<Longrightarrow> never_true (bindM m f)"
  unfolding never_true_def bindM_def
  by (auto split: prod.splits sum.splits)

lemma never_true_then: "never_true k \<Longrightarrow> never_true (thenM m k)"
  unfolding thenM_def by (rule never_true_bind)

lemma never_true_if: "never_true m \<Longrightarrow> never_true k \<Longrightarrow> never_true (if b then m else k)"
  by simp

lemmas never_true_intros = never_true_return never_true_bind never_true_then never_true_if

lemma never_true_dark_mode_handler: "never_true (dark_mode_handler E chat e)"
  unfolding dark_mode_handler_def by (intro never_true_intros)

lemma never_true_outer_handler: "never_true (outer_handler E chat e)"
  unfolding outer_handler_def by (intro never_true_intros never_true_dark_mode_handler)

lemma reachesI:
  "(\<And>s r s'. m s = (r, s') \<Longrightarrow>
      (ext P1 s s' \<and> r \<noteq> Inr True) \<or> (\<exists>s0. ext P2 s s0 \<and> T s0 = (r, s'))) \<Longrightarrow>
   reaches P1 P2 T m"
  by (simp add: reaches_def)

lemma reachesD:
  "reaches P1 P2 T m \<Longrightarrow> m s = (r, s') \<Longrightarrow>
   (ext P1 s s' \<and> r \<noteq> Inr True) \<or> (\<exists>s0. ext P2 s s0 \<and> T s0 = (r, s'))"
  by (simp add: reaches_def)

lemma reaches_target: "reaches P1 P2 T T"
  by (rule reachesI) (blast intro: ext_refl)

lemma reaches_quiet: "emits P1 m \<Longrightarrow> never_true m \<Longrightarrow> reaches P1 P2 T m"
  by (rule reachesI) (blast dest: emitsD never_trueD)

lemma reaches_bind_cases:
  assumes em: "emits P1 m"
    and k: "\<And>s a s1. m s = (Inr a, s1) \<Longrightarrow>
              (ext P2 s s1 \<and> reaches P1 P2 T (f a)) \<or> (emits P1 (f a) \<and> never_true (f a))"
  shows "reaches P1 P2 T (bindM m f)"
proof (rule reachesI)
  fix s r s'
  assume run: "bindM m f s = (r, s')"
  obtain r1 s1 where m: "m s = (r1, s1)" by (cases "m s")
  from emitsD[OF em m] have e1: "ext P1 s s1" .
  show "(ext P1 s s' \<and> r \<noteq> Inr True) \<or> (\<exists>s0. ext P2 s s0 \<and> T s0 = (r, s'))"
  proof (cases r1)
    case (Inl e)
    with m run e1 show ?thesis by (auto simp: bindM_def)
  next
    case (Inr a)
    with m run have f: "f a s1 = (r, s')" by (simp add: bindM_def)
    from k[of s a s1] m Inr
    consider (go) "ext P2 s s1" "reaches P1 P2 T (f a)"
      | (stop) "emits P1 (f a)" "never_true (f a)" by blast
    then show ?thesis
    proof cases
      case go
      from reachesD[OF go(2) f] show ?thesis
      proof
        assume "ext P1 s1 s' \<and> r \<noteq> Inr True"
        with e1 show ?thesis by (blast intro: ext_trans)
      next
        assume "\<exists>s0. ext P2 s1 s0 \<and> T s0 = (r, s')"
        with go(1) show ?thesis by (blast intro: ext_trans)
      qed
    next
      case stop
      from emitsD[OF stop(1) f] e1 never_trueD[OF stop(2) f] show ?thesis
        by (blast intro: ext_trans)
    qed
  qed
qed

lemma reaches_bind:
  assumes em: "emits (\<lambda>ev. P1 ev \<and> P2 ev) m" and k: "\<And>a. reaches P1 P2 T (f a)"
  shows "reaches P1 P2 T (bindM m f)"
proof (rule reaches_bind_cases)
  show "emits P1 m" by (rule emits_mono[OF em]) simp
next
  fix s a s1
  assume m: "m s = (Inr a, s1)"
  from emitsD[OF em m] have "ext P2 s s1" by (rule ext_mono) simp
  with k show "(ext P2 s s1 \<and> reaches P1 P2 T (f a)) \<or> (emits P1 (f a) \<and> never_true (f a))"
    by simp
qed

lemma reaches_then:
  "emits (\<lambda>ev. P1 ev \<and> P2 ev) m \<Longrightarrow> reaches P1 P2 T k \<Longrightarrow> reaches P1 P2 T (thenM m k)"
  unfolding thenM_def by (rule reaches_bind)

lemma reaches_if:
  "reaches P1 P2 T m \<Longrightarrow> reaches P1 P2 T k \<Longrightarrow> reaches P1 P2 T (if b then m else k)"
  by simp

lemma reaches_case_option:
  "reaches P1 P2 T m \<Longrightarrow> (\<And>a. reaches P1 P2 T (f a)) \<Longrightarrow>
   reaches P1 P2 T (case x of None \<Rightarrow> m | Some a \<Rightarrow> f a)"
  by (cases x) simp_all

text \<open>The outcome of a \<open>try\<close> block that may reach \<open>T\<close>, under a handler that never
  returns True.\<close>

lemma reaches_catch:
  assumes rm: "reaches P1 P2 T m" and eh: "\<And>e. emits P1 (h e)" and nh: "\<And>e. never_true (h e)"
    and run: "catchM m h s = (r, s')"
  shows "(ext P1 s s' \<and> r \<noteq> Inr True) \<or>
         (\<exists>s0 r0 s1. ext P2 s s0 \<and> T s0 = (r0, s1) \<and>
            (case r0 of Inr b \<Rightarrow> r = Inr b \<and> s' = s1 | Inl e \<Rightarrow> h e s1 = (r, s')))"
proof -
  obtain r1 s1 where m: "m s = (r1, s1)" by (cases "m s")
  from reachesD[OF rm m] show ?thesis
  proof
    assume q: "ext P1 s s1 \<and> r1 \<noteq> Inr True"
    show ?thesis
    proof (cases r1)
      case (Inr b)
      with m run q show ?thesis by (simp add: catchM_def)
    next
      case (Inl e)
      with m run have h: "h e s1 = (r, s')" by (simp add: catchM_def)
      from emitsD[OF eh h] q never_trueD[OF nh h] show ?thesis by (blast intro: ext_trans)
    qed
  next
    assume "\<exists>s0. ext P2 s s0 \<and> T s0 = (r1, s1)"
    then obtain s0 where s0: "ext P2 s s0" "T s0 = (r1, s1)" by blast
    have "case r1 of Inr b \<Rightarrow> r = Inr b \<and> s' = s1 | Inl e \<Rightarrow> h e s1 = (r, s')"
      using m run by (cases r1) (auto simp: catchM_def)
    with s0 show ?thesis by blast
  qed
qed


lemma call_elem_Inr:
  assumes "call_elem E c s = (Inr a, s1)"
  shows "trace s1 = trace s @ [Did c]"
proof -
  obtain r d where ru: "run_elem E c (browser s) = (r, d)" by (cases "run_elem E c (browser s)")
  with assms show ?thesis
    by (cases r) (simp_all add: call_elem_def record_call_def, fastforce)
qed

lemma call_elem_Inl:
  assumes "call_elem E c s = (Inl e, s1)"
  shows "trace s1 = trace s @ [Failed c e]"
proof -
  obtain r d where ru: "run_elem E c (browser s) = (r, d)" by (cases "run_elem E c (browser s)")
  with assms show ?thesis
    by (cases r) (simp_all add: call_elem_def record_call_def, fastforce)
qed

lemma plain_event_simps [simp]:
  "plain_event chat (Did c) \<longleftrightarrow> c \<noteq> Refresh \<and> c \<noteq> link_poll chat"
  "plain_event chat (Failed c e) \<longleftrightarrow> c \<noteq> Refresh \<and> c \<noteq> link_poll chat"
  "plain_event chat (Sleep n)"
  "plain_event chat (Log l m) \<longleftrightarrow> (l, m) \<noteq> (INFO, ''Found dialog with selector'')"
  by (auto simp: plain_event_def)

lemma link_poll_neq [simp]:
  "link_poll chat \<noteq> FindElement CSS_SELECTOR delete_menu_item_selector"
  "link_poll chat \<noteq> FindElement XPATH sel"
  by (simp_all add: link_poll_def href_selector_not_menu_item)

lemma emits_open_options_menu_plain: "emits (plain_event chat) (open_options_menu E chat)"
  unfolding open_options_menu_def
  by (intro emits_intros) (simp_all add: link_poll_def)

lemma click_options_result:
  assumes "click_options E chat b s = (Inr a, s1)"
  shows "(a = None \<and> ext (plain_event chat) s s1) \<or> a = Some False"
proof -
  let ?m = "thenM (call_unit E (MoveClick b)) (sleep E 1)"
  have em: "emits (plain_event chat) ?m"
    by (intro emits_intros) (simp_all add: link_poll_def)
  obtain r s2 where m: "?m s = (r, s2)" by (cases "?m s")
  show ?thesis
  proof (cases r)
    case (Inr u)
    with m assms have "a = None" "s1 = s2" by (simp_all add: click_options_def)
    with emitsD[OF em m] show ?thesis by simp
  next
    case (Inl e)
    show ?thesis
    proof (cases "is_click_intercepted e")
      case False
      with m Inl assms show ?thesis by (simp add: click_options_def)
    next
      case True
      obtain r3 s3 where h: "dark_mode_handler E chat e s2 = (r3, s3)"
        by (cases "dark_mode_handler E chat e s2")
      from never_trueD[OF never_true_dark_mode_handler h] have nt: "r3 \<noteq> Inr True" .
      from m Inl True h assms have "r3 = Inr (case a of Some x \<Rightarrow> x | None \<Rightarrow> True) \<and> a \<noteq> None"
        by (cases r3) (auto simp: click_options_def bindM_def returnM_def)
      with nt show ?thesis by (cases a) auto
    qed
  qed
qed

text \<open>The \<open>try\<close> block reaches what \<open>delete_and_confirm\<close> reaches.\<close>

lemma reaches_delete_chat_body:
  assumes plain: "\<And>ev. plain_event chat ev \<Longrightarrow> P1 ev \<and> P2 ev"
    and reload: "P1 (Did Refresh)" "\<And>e. P1 (Failed Refresh e)"
    and dc: "reaches P1 P2 T (delete_and_confirm E chat)"
  shows "reaches P1 P2 T (delete_chat_body E chat)"
proof -
  have p1: "\<And>ev. plain_event chat ev \<Longrightarrow> P1 ev" and p2: "\<And>ev. plain_event chat ev \<Longrightarrow> P2 ev"
    using plain by blast+
  have h: "\<And>e. emits P1 (dark_mode_handler E chat e)"
    by (rule emits_dark_mode_handler) (simp_all add: p1 reload)
  have co: "\<And>b. emits P1 (click_options E chat b)"
    by (rule emits_click_options) (simp_all add: p1 h link_poll_def)
  have step: "reaches P1 P2 T (bindM (click_options E chat b)
                 (\<lambda>r. case r of Some b \<Rightarrow> returnM b | None \<Rightarrow> delete_and_confirm E chat))" for b
  proof (rule reaches_bind_cases[OF co])
    fix s a s1
    assume "click_options E chat b s = (Inr a, s1)"
    from click_options_result[OF this]
    show "(ext P2 s s1 \<and> reaches P1 P2 T (case a of Some b \<Rightarrow> returnM b | None \<Rightarrow> delete_and_confirm E chat))
          \<or> (emits P1 (case a of Some b \<Rightarrow> returnM b | None \<Rightarrow> delete_and_confirm E chat)
             \<and> never_true (case a of Some b \<Rightarrow> returnM b | None \<Rightarrow> delete_and_confirm E chat))"
    proof
      assume "a = None \<and> ext (plain_event chat) s s1"
      with dc p2 show ?thesis by (auto intro: ext_mono)
    next
      assume "a = Some False"
      then show ?thesis by (simp add: emits_return never_true_return)
    qed
  qed
  have o: "emits (\<lambda>ev. P1 ev \<and> P2 ev) (open_options_menu E chat)"
    by (rule emits_mono[OF emits_open_options_menu_plain]) (rule plain)
  show ?thesis
    unfolding delete_chat_body_def
    by (rule reaches_bind[OF o]) (rule step)
qed

text \<open>How a call of \<open>_delete_chat\<close> ends: without having come to \<open>T\<close> and with a result
  other than True, or with the outcome of \<open>T\<close>, passed through the outer handler when
  \<open>T\<close> raised.\<close>

lemma delete_chat_reaches:
  assumes plain: "\<And>ev. plain_event chat ev \<Longrightarrow> P1 ev \<and> P2 ev"
    and reload: "P1 (Did Refresh)" "\<And>e. P1 (Failed Refresh e)"
    and dc: "reaches P1 P2 T (delete_and_confirm E chat)"
    and run: "delete_chat E chat s = (r, s')"
  shows "(ext P1 s s' \<and> r \<noteq> Inr True) \<or>
         (\<exists>s0 r0 s1. ext P2 s s0 \<and> T s0 = (r0, s1) \<and>
            (case r0 of Inr b \<Rightarrow> r = Inr b \<and> s' = s1
                      | Inl e \<Rightarrow> outer_handler E chat e s1 = (r, s')))"
proof -
  have p1: "\<And>ev. plain_event chat ev \<Longrightarrow> P1 ev" using plain by blast
  have h: "\<And>e. emits P1 (outer_handler E chat e)"
    unfolding outer_handler_def
    by (intro emits_intros emits_dark_mode_handler) (simp_all add: p1 reload)
  from run have c: "catchM (delete_chat_body E chat) (outer_handler E chat) s = (r, s')"
    by (simp add: delete_chat_def)
  show ?thesis
    by (rule reaches_catch[OF reaches_delete_chat_body[OF plain reload dc] h
          never_true_outer_handler c])
qed


lemma polls_found_simps [simp]:
  "polls_found chat [] = 0"
  "polls_found chat (ev # tr) = (if ev = Did (link_poll chat) then 1 else 0) + polls_found chat tr"
  "polls_found chat (tr @ tr') = polls_found chat tr + polls_found chat tr'"
  by (simp_all add: polls_found_def)

lemma polls_found_none:
  "list_all (\<lambda>ev. \<not> calls (link_poll chat) ev) tr \<Longrightarrow> polls_found chat tr = 0"
  by (induction tr) auto

text \<open>The loop of step 7, entered with \<open>retries\<close> polls done: it returns True only
  straight after a poll that raised NoSuchElementException, it polls at most
  \<open>3 - retries\<close> times, and when that many polls found the link it returns False.\<close>

lemma verify_gone_polls:
  assumes "verify_gone E chat retries s = (r, s')"
  shows "\<exists>tr. trace s' = trace s @ tr \<and>
           (r = Inr True \<longrightarrow>
              (\<exists>pre m. tr = pre @ [Failed (link_poll chat) (NoSuchElementException m),
                                    Log INFO ''Successfully deleted chat''])) \<and>
           polls_found chat tr \<le> 3 - retries \<and>
           (polls_found chat tr = 3 - retries \<longrightarrow> r = Inr False)"
  using assms
proof (induction "3 - retries" arbitrary: retries s)
  case 0
  then have ge: "\<not> retries < 3" by simp
  from 0(2) ge have "r = Inr False"
    and "s' = logged WARNING ''Chat still exists after deletion attempt'' s"
    by (simp_all add: verify_gone.simps[of E chat retries s])
  then show ?case by (simp add: logged_def)
next
  case (Suc n)
  then have lt: "retries < 3" and n: "n = 3 - (retries + 1)" by simp_all
  let ?c = "call_elem E (link_poll chat) s"
  obtain rc s1 where c: "?c = (rc, s1)" by (cases ?c)
  have unf: "verify_gone E chat retries s =
     (case call_elem E (link_poll chat) s of
        (Inr l, s1) \<Rightarrow> verify_gone E chat (retries + 1) (slept E 1 s1)
      | (Inl e, s1) \<Rightarrow>
          if is_no_such_element e
          then (Inr True, logged INFO ''Successfully deleted chat'' s1)
          else (Inl e, s1))"
    using lt by (subst verify_gone.simps) (simp add: link_poll_def)
  show ?case
  proof (cases rc)
    case (Inr l)
    from call_elem_Inr c Inr have t1: "trace s1 = trace s @ [Did (link_poll chat)]" by blast
    from Suc.prems lt c Inr
    have rec: "verify_gone E chat (retries + 1) (slept E 1 s1) = (r, s')"
      by (simp add: unf del: verify_gone.simps)
    from Suc.hyps(1)[OF n rec] obtain tr where
      tr: "trace s' = trace (slept E 1 s1) @ tr"
      and a: "r = Inr True \<longrightarrow>
              (\<exists>pre m. tr = pre @ [Failed (link_poll chat) (NoSuchElementException m),
                                    Log INFO ''Successfully deleted chat''])"
      and b: "polls_found chat tr \<le> 3 - (retries + 1)"
      and d: "polls_found chat tr = 3 - (retries + 1) \<longrightarrow> r = Inr False"
      by blast
    let ?tr = "[Did (link_poll chat), Sleep 1] @ tr"
    have 1: "trace s' = trace s @ ?tr" using tr t1 by (simp add: slept_def)
    have 2: "r = Inr True \<longrightarrow>
              (\<exists>pre m. ?tr = pre @ [Failed (link_poll chat) (NoSuchElementException m),
                                    Log INFO ''Successfully deleted chat''])"
    proof
      assume "r = Inr True"
      with a obtain pre m where
        "tr = pre @ [Failed (link_poll chat) (NoSuchElementException m),
                     Log INFO ''Successfully deleted chat'']" by blast
      then have "?tr = ([Did (link_poll chat), Sleep 1] @ pre) @
                     [Failed (link_poll chat) (NoSuchElementException m),
                      Log INFO ''Successfully deleted chat'']" by simp
      then show "\<exists>pre m. ?tr = pre @ [Failed (link_poll chat) (NoSuchElementException m),
                                    Log INFO ''Successfully deleted chat'']" by blast
    qed
    have 3: "polls_found chat ?tr \<le> 3 - retries" using b lt by simp
    have 4: "polls_found chat ?tr = 3 - retries \<longrightarrow> r = Inr False" using d lt by simp
    from 1 2 3 4 show ?thesis by blast
  next
    case (Inl e)
    from call_elem_Inl c Inl have t1: "trace s1 = trace s @ [Failed (link_poll chat) e]" by blast
    show ?thesis
    proof (cases "is_no_such_element e")
      case True
      then obtain m where e: "e = NoSuchElementException m" by (cases e) simp_all
      from Suc.prems lt c Inl True
      have "r = Inr True" and s': "s' = logged INFO ''Successfully deleted chat'' s1"
        by (simp_all add: unf del: verify_gone.simps)
      let ?tr = "[Failed (link_poll chat) (NoSuchElementException m),
                  Log INFO ''Successfully deleted chat'']"
      have 1: "trace s' = trace s @ ?tr" using s' t1 e by (simp add: logged_def)
      have 2: "\<exists>pre m'. ?tr = pre @ [Failed (link_poll chat) (NoSuchElementException m'),
                                    Log INFO ''Successfully deleted chat'']" by blast
      have 3: "polls_found chat ?tr = 0" by simp
      from 1 2 3 lt show ?thesis by (intro exI[of _ ?tr]) simp
    next
      case False
      from Suc.prems lt c Inl False have "r = Inl e" and s': "s' = s1"
        by (simp_all add: unf del: verify_gone.simps)
      with t1 lt show ?thesis by (intro exI[of _ "[Failed (link_poll chat) e]"]) simp
    qed
  qed
qed

lemma reaches_verify_gone:
  fixes chat :: chat
  defines "P \<equiv> \<lambda>ev. \<not> calls (link_poll chat) ev"
  shows "reaches P P (verify_gone E chat 0) (delete_and_confirm E chat)"
proof -
  let ?PP = "\<lambda>ev. P ev \<and> P ev"
  have f: "emits ?PP (find_delete_button_in_menu E)"
    by (rule emits_find_delete_button_in_menu) (simp_all add: P_def link_poll_def href_selector_not_menu_item[symmetric])
  have d: "emits ?PP (find_dialog E dialog_selectors)"
    by (rule emitsI) (rule ext_find_dialog; simp add: P_def link_poll_def)
  have c: "emits ?PP (confirm_attempts E [0..<5])"
    by (rule emitsI) (rule ext_confirm_attempts; simp add: P_def link_poll_def)
  have fail: "reaches P P (verify_gone E chat 0)
      (thenM (logging WARNING ''All confirmation button click attempts failed'')
        (thenM (call_unit E Refresh)
        (thenM (sleep E 5)
        (thenM reset_dark_mode_error_count
        (returnM False)))))"
    by (rule reaches_quiet, (intro emits_intros; simp add: P_def link_poll_def),
        intro never_true_intros)
  have cv: "reaches P P (verify_gone E chat 0) (confirm_and_verify E chat)"
    unfolding confirm_and_verify_def
    by (intro reaches_bind[OF c] reaches_if fail reaches_then reaches_target emits_sleep)
       (simp add: P_def)
  have nodialog: "reaches P P (verify_gone E chat 0)
      (thenM (logging WARNING ''Could not find confirmation dialog'') (returnM False))"
    by (rule reaches_quiet, (intro emits_intros; simp add: P_def), intro never_true_intros)
  have nobutton: "reaches P P (verify_gone E chat 0)
      (thenM (logging WARNING ''Delete button not found in menu after waiting'') (returnM False))"
    by (rule reaches_quiet, (intro emits_intros; simp add: P_def), intro never_true_intros)
  show ?thesis
    unfolding delete_and_confirm_def
    by (intro reaches_bind[OF f] reaches_case_option nobutton reaches_then reaches_bind[OF d]
          reaches_if nodialog cv emits_call_unit emits_sleep)
       (simp_all add: P_def link_poll_def)
qed


text \<open>
  C4. \<open>_delete_chat\<close> returns True only straight after a poll for the link of the chat
  \<open>a[href*="<id>"]\<close> that raised NoSuchElementException: that failed poll and the log line
  "Successfully deleted chat" are the last two events of the call. A call polls at most
  three times, and when all three polls found the link it returns False.
\<close>

theorem success_only_if_link_gone:
  assumes "delete_chat E chat s = (r, s')"
  shows "(r = Inr True \<longrightarrow>
            (\<exists>pre m. new_events s s' =
               pre @ [Failed (FindElement CSS_SELECTOR (chat_href_selector (chat_id chat)))
                        (NoSuchElementException m),
                      Log INFO ''Successfully deleted chat''])) \<and>
         polls_found chat (new_events s s') \<le> 3 \<and>
         (polls_found chat (new_events s s') = 3 \<longrightarrow> r = Inr False)"
proof -
  let ?P = "\<lambda>ev. \<not> calls (link_poll chat) ev"
  let ?gone = "\<lambda>tr. \<exists>pre m. tr = pre @ [Failed (link_poll chat) (NoSuchElementException m),
                                        Log INFO ''Successfully deleted chat'']"
  have p1: "plain_event chat ev \<Longrightarrow> ?P ev \<and> ?P ev" for ev
    by (simp add: plain_event_def)
  have p2: "?P (Did Refresh)" by (simp add: link_poll_def)
  have p3: "?P (Failed Refresh e)" for e by (simp add: link_poll_def)
  have ways: "(ext ?P s s' \<and> r \<noteq> Inr True) \<or>
      (\<exists>s0 r0 s1. ext ?P s s0 \<and> verify_gone E chat 0 s0 = (r0, s1) \<and>
         (case r0 of Inr b \<Rightarrow> r = Inr b \<and> s' = s1
                   | Inl e \<Rightarrow> outer_handler E chat e s1 = (r, s')))"
    by (rule delete_chat_reaches[of chat ?P ?P, OF p1 p2 p3 reaches_verify_gone assms])
  have goal: "(r = Inr True \<longrightarrow> ?gone (new_events s s')) \<and>
         polls_found chat (new_events s s') \<le> 3 \<and>
         (polls_found chat (new_events s s') = 3 \<longrightarrow> r = Inr False)"
    using ways
  proof (elim disjE exE conjE)
    assume e: "ext ?P s s'" and nt: "r \<noteq> Inr True"
    from polls_found_none[OF ext_events[OF e]] nt show ?thesis by simp
  next
    fix s0 r0 s1
    assume e0: "ext ?P s s0" and v: "verify_gone E chat 0 s0 = (r0, s1)"
      and out: "case r0 of Inl e \<Rightarrow> outer_handler E chat e s1 = (r, s')
                         | Inr b \<Rightarrow> r = Inr b \<and> s' = s1"
    from verify_gone_polls[OF v] obtain tr where
      tr: "trace s1 = trace s0 @ tr"
      and a: "r0 = Inr True \<longrightarrow> ?gone tr"
      and b: "polls_found chat tr \<le> 3"
      and d: "polls_found chat tr = 3 \<longrightarrow> r0 = Inr False"
      by auto
    from polls_found_none[OF ext_events[OF e0]] have p0: "polls_found chat (new_events s s0) = 0" .
    from ext_trace[OF e0] tr have t1: "trace s1 = trace s @ (new_events s s0 @ tr)" by simp
    show ?thesis
    proof (cases r0)
      case (Inr b0)
      with out have r: "r = r0" and s': "s' = s1" by simp_all
      from new_events_append[OF t1] s' have n: "new_events s s' = new_events s s0 @ tr" by simp
      have "?gone (new_events s s')" if "r = Inr True"
      proof -
        from that r a obtain pre m where
          "tr = pre @ [Failed (link_poll chat) (NoSuchElementException m),
                       Log INFO ''Successfully deleted chat'']" by blast
        with n have "new_events s s' = (new_events s s0 @ pre) @
              [Failed (link_poll chat) (NoSuchElementException m),
               Log INFO ''Successfully deleted chat'']" by simp
        then show ?thesis by blast
      qed
      with n p0 b d r show ?thesis by simp
    next
      case (Inl e)
      with out have h: "outer_handler E chat e s1 = (r, s')" by simp
      have "emits ?P (outer_handler E chat e)"
        unfolding outer_handler_def
        by (intro emits_intros emits_dark_mode_handler) (simp_all add: link_poll_def)
      from emitsD[OF this h] have e1: "ext ?P s1 s'" .
      from never_trueD[OF never_true_outer_handler h] have nt: "r \<noteq> Inr True" .
      from ext_trace[OF e1] t1
      have "trace s' = trace s @ (new_events s s0 @ tr @ new_events s1 s')" by simp
      from new_events_append[OF this]
      have n: "new_events s s' = new_events s s0 @ tr @ new_events s1 s'" .
      from polls_found_none[OF ext_events[OF e1]] p0 n
      have "polls_found chat (new_events s s') = polls_found chat tr" by simp
      with b d Inl nt show ?thesis by simp
    qed
  qed
  then show ?thesis by (simp add: link_poll_def)
qed


lemma ui_link_stays_simps:
  "run_unit ui_link_stays c d = (Inr (), d)"
  "run_elem ui_link_stays (FindElement l sel) d = (Inr 7, d)"
  "run_elem ui_link_stays (WaitPresence l sel n) d = (Inr 5, d)"
  "run_elem ui_link_stays (FindChild el l sel) d = (Inr 5, d)"
  "run_elem ui_link_stays (WaitVisibleIn el l sel n) d = (Inr 5, d)"
  "run_bool ui_link_stays c d = (Inr True, d)"
  "tick ui_link_stays n d = d"
  by (simp_all add: ui_link_stays_def)

lemma delete_chat_link_stays:
  "polls_found chat_bbb
     (new_events st_sidebar (snd (delete_chat ui_link_stays chat_bbb st_sidebar))) = 3"
  by (simp add: delete_chat_defs ui_link_stays_simps new_events_def polls_found_def link_poll_def
      href_selector_not_menu_item[symmetric] chat_bbb_def st_sidebar_def prog_defs)

theorem success_only_if_link_gone_witness:
  "fst (delete_chat ui_happy chat_bbb st_sidebar) = Inr True \<and>
   (\<exists>pre m. new_events st_sidebar (snd (delete_chat ui_happy chat_bbb st_sidebar)) =
      pre @ [Failed (FindElement CSS_SELECTOR (chat_href_selector ''bbb''))
               (NoSuchElementException m),
             Log INFO ''Successfully deleted chat'']) \<and>
   polls_found chat_bbb
     (new_events st_sidebar (snd (delete_chat ui_link_stays chat_bbb st_sidebar))) = 3 \<and>
   fst (delete_chat ui_link_stays chat_bbb st_sidebar) = Inr False"
proof -
  have h: "delete_chat ui_happy chat_bbb st_sidebar =
      (fst (delete_chat ui_happy chat_bbb st_sidebar),
       snd (delete_chat ui_happy chat_bbb st_sidebar))" by simp
  have l: "delete_chat ui_link_stays chat_bbb st_sidebar =
      (fst (delete_chat ui_link_stays chat_bbb st_sidebar),
       snd (delete_chat ui_link_stays chat_bbb st_sidebar))" by simp
  have c: "chat_id chat_bbb = ''bbb''" by (simp add: chat_bbb_def)
  from success_only_if_link_gone[OF h] success_only_if_link_gone[OF l]
    delete_chat_happy delete_chat_link_stays c
  show ?thesis by simp
qed

lemma is_reload_calls: "is_reload ev = calls Refresh ev"
  by (cases ev) simp_all

lemma call_unit_Inl:
  assumes "call_unit E c s = (Inl e, s2)"
  shows "trace s2 = trace s @ [Failed c e]"
proof -
  obtain r d where ru: "run_unit E c (browser s) = (r, d)" by (cases "run_unit E c (browser s)")
  with assms show ?thesis
    by (cases r) (simp_all add: call_unit_def record_call_def, fastforce)
qed

lemma call_unit_Inr:
  assumes "call_unit E c s = (Inr u, s2)"
  shows "trace s2 = trace s @ [Did c]"
proof -
  obtain r d where ru: "run_unit E c (browser s) = (r, d)" by (cases "run_unit E c (browser s)")
  with assms show ?thesis
    by (cases r) (simp_all add: call_unit_def record_call_def, fastforce)
qed

lemma exhausted_attempts_unfolded:
  "exhausted_attempts =
     (let misses = map (\<lambda>selector. Failed (FindElement XPATH selector) (NoSuchElementException []))
                     button_selectors
      in misses @ Sleep 1 # misses @ Sleep 1 # misses @ Sleep 1 # misses @ Sleep 1 # misses)"
  by (simp add: exhausted_attempts_def range5 Let_def)

lemma try_selectors_absent:
  assumes "\<forall>sel \<in> set sels. \<forall>d. \<exists>m d'.
             run_elem E (FindElement XPATH sel) d = (Inl (NoSuchElementException m), d')"
  shows "\<exists>s' tr. try_selectors E sels s = (Inr False, s') \<and> trace s' = trace s @ tr \<and>
           map shape tr =
             map (\<lambda>selector. Failed (FindElement XPATH selector) (NoSuchElementException [])) sels"
  using assms
proof (induction sels arbitrary: s)
  case Nil
  show ?case by simp
next
  case (Cons sel sels)
  from Cons.prems obtain m d' where
    ru: "run_elem E (FindElement XPATH sel) (browser s) = (Inl (NoSuchElementException m), d')"
    by (meson list.set_intros(1))
  let ?s1 = "s\<lparr>browser := d', trace := trace s @ [Failed (FindElement XPATH sel) (NoSuchElementException m)]\<rparr>"
  from ru have c: "call_elem E (FindElement XPATH sel) s = (Inl (NoSuchElementException m), ?s1)"
    by (simp add: call_elem_def record_call_def)
  from Cons.prems have "\<forall>sel \<in> set sels. \<forall>d. \<exists>m d'.
             run_elem E (FindElement XPATH sel) d = (Inl (NoSuchElementException m), d')"
    by simp
  from Cons.IH[OF this, of ?s1] obtain s' tr where
    t: "try_selectors E sels ?s1 = (Inr False, s')" and tr: "trace s' = trace ?s1 @ tr"
    and sh: "map shape tr =
      map (\<lambda>selector. Failed (FindElement XPATH selector) (NoSuchElementException [])) sels"
    by blast
  from c t have "try_selectors E (sel # sels) s = (Inr False, s')"
    by (simp add: bindM_def)
  moreover from tr
  have "trace s' = trace s @ (Failed (FindElement XPATH sel) (NoSuchElementException m) # tr)"
    by simp
  moreover from sh
  have "map shape (Failed (FindElement XPATH sel) (NoSuchElementException m) # tr) =
      map (\<lambda>selector. Failed (FindElement XPATH selector) (NoSuchElementException [])) (sel # sels)"
    by simp
  ultimately show ?case by blast
qed

lemma confirm_attempts_absent:
  assumes "\<forall>sel \<in> set button_selectors. \<forall>d. \<exists>m d'.
             run_elem E (FindElement XPATH sel) d = (Inl (NoSuchElementException m), d')"
  shows "\<exists>s' tr. confirm_attempts E attempts s = (Inr False, s') \<and> trace s' = trace s @ tr \<and>
           map shape tr =
             concat (map (\<lambda>attempt. (if attempt > 0 then [Sleep 1] else []) @
                    map (\<lambda>selector. Failed (FindElement XPATH selector) (NoSuchElementException []))
                      button_selectors) attempts)"
proof (induction attempts arbitrary: s)
  case Nil
  show ?case by simp
next
  case (Cons attempt rest)
  let ?s0 = "if attempt > 0 then slept E 1 s else s"
  let ?p = "if attempt > 0 then [Sleep 1] else []"
  have t0: "trace ?s0 = trace s @ ?p" by (simp add: slept_def)
  from try_selectors_absent[OF assms, of ?s0] obtain s1 tr1 where
    t: "try_selectors E button_selectors ?s0 = (Inr False, s1)" and tr1: "trace s1 = trace ?s0 @ tr1"
    and sh1: "map shape tr1 =
      map (\<lambda>selector. Failed (FindElement XPATH selector) (NoSuchElementException [])) button_selectors"
    by blast
  from Cons.IH[of s1] obtain s' tr where
    c: "confirm_attempts E rest s1 = (Inr False, s')" and tr: "trace s' = trace s1 @ tr"
    and sh: "map shape tr =
       concat (map (\<lambda>attempt. (if attempt > 0 then [Sleep 1] else []) @
                    map (\<lambda>selector. Failed (FindElement XPATH selector) (NoSuchElementException []))
                      button_selectors) rest)"
    by blast
  from t c have "confirm_attempts E (attempt # rest) s = (Inr False, s')" by simp
  moreover from tr tr1 t0 have "trace s' = trace s @ (?p @ tr1 @ tr)" by simp
  moreover from sh sh1 have "map shape (?p @ tr1 @ tr) =
       concat (map (\<lambda>attempt. (if attempt > 0 then [Sleep 1] else []) @
                    map (\<lambda>selector. Failed (FindElement XPATH selector) (NoSuchElementException []))
                      button_selectors) (attempt # rest))"
    by simp
  ultimately show ?case by blast
qed

text \<open>Steps 6 and 7 when no selector finds the confirmation button.\<close>

lemma confirm_and_verify_absent:
  assumes absent: "\<forall>sel \<in> set button_selectors. \<forall>d. \<exists>m d'.
             run_elem E (FindElement XPATH sel) d = (Inl (NoSuchElementException m), d')"
    and run: "confirm_and_verify E chat s = (r, s')"
  shows "\<exists>tries ev. map shape tries = exhausted_attempts \<and>
           trace s' = trace s @ tries @
             [Log WARNING ''All confirmation button click attempts failed'', ev] @
             (if ev = Did Refresh then [Sleep 5] else []) \<and>
           (ev = Did Refresh \<and> r = Inr False \<or> (\<exists>e. ev = Failed Refresh e \<and> r = Inl e))"
proof -
  from confirm_attempts_absent[OF absent, of "[0..<5]" s] obtain sa tries where
    c: "confirm_attempts E [0..<5] s = (Inr False, sa)" and ta: "trace sa = trace s @ tries"
    and sh: "map shape tries = exhausted_attempts"
    unfolding exhausted_attempts_def by blast
  let ?sl = "logged WARNING ''All confirmation button click attempts failed'' sa"
  obtain rr sr where rf: "call_unit E Refresh ?sl = (rr, sr)" by (cases "call_unit E Refresh ?sl")
  have tl: "trace ?sl = trace s @ tries @ [Log WARNING ''All confirmation button click attempts failed'']"
    using ta by (simp add: logged_def)
  show ?thesis
  proof (cases rr)
    case (Inr u)
    from call_unit_Inr rf Inr have "trace sr = trace ?sl @ [Did Refresh]" by blast
    moreover from run c rf Inr
    have "r = Inr False" and "s' = (slept E 5 sr)\<lparr>dark_mode_error_count := 0\<rparr>"
      by (simp_all add: confirm_and_verify_def bindM_def thenM_def logging_def sleep_def
          reset_dark_mode_error_count_def returnM_def)
    ultimately show ?thesis using tl sh
      by (intro exI[of _ tries] exI[of _ "Did Refresh"]) (simp add: slept_def)
  next
    case (Inl e)
    from call_unit_Inl rf Inl have "trace sr = trace ?sl @ [Failed Refresh e]" by blast
    moreover from run c rf Inl
    have "r = Inl e" and "s' = sr"
      by (simp_all add: confirm_and_verify_def bindM_def thenM_def logging_def)
    ultimately show ?thesis using tl sh
      by (intro exI[of _ tries] exI[of _ "Failed Refresh e"]) simp
  qed
qed


lemma reloads_none: "list_all (\<lambda>ev. \<not> is_reload ev) tr \<Longrightarrow> reloads tr = 0"
  by (induction tr) (simp_all add: reloads_def)

lemma find_dialog_not_found:
  "find_dialog E sels s = (rd, sd) \<Longrightarrow> rd \<noteq> Inr True \<Longrightarrow>
   ext (\<lambda>ev. ev \<noteq> Log INFO ''Found dialog with selector'') s sd"
proof (induction sels arbitrary: s)
  case Nil
  then show ?case by (simp add: ext_refl)
next
  case (Cons sel sels)
  let ?P = "\<lambda>ev. ev \<noteq> Log INFO ''Found dialog with selector''"
  let ?c = "call_elem E (WaitPresence CSS_SELECTOR sel 3) s"
  obtain r s1 where c: "?c = (r, s1)" by (cases ?c)
  have "ext ?P s (snd ?c)" by (rule ext_call_elem) simp_all
  with c have e1: "ext ?P s s1" by simp
  show ?case
  proof (cases r)
    case (Inr d)
    with c Cons.prems show ?thesis by simp
  next
    case (Inl e)
    show ?thesis
    proof (cases "is_timeout e")
      case True
      with c Inl Cons.prems have "find_dialog E sels s1 = (rd, sd)" by simp
      from Cons.IH[OF this Cons.prems(2)] e1 show ?thesis by (blast intro: ext_trans)
    next
      case False
      with c Inl Cons.prems e1 show ?thesis by simp
    qed
  qed
qed

lemma reaches_dialog_step:
  "reaches (\<lambda>ev. ev \<noteq> Log INFO ''Found dialog with selector'') (plain_event chat)
     (bindM (find_dialog E dialog_selectors) (\<lambda>dialog_found.
        if \<not> dialog_found
        then thenM (logging WARNING ''Could not find confirmation dialog'') (returnM False)
        else confirm_and_verify E chat))
     (delete_and_confirm E chat)"
proof -
  let ?P1 = "\<lambda>ev. ev \<noteq> Log INFO ''Found dialog with selector''"
  let ?PP = "\<lambda>ev. ?P1 ev \<and> plain_event chat ev"
  let ?T = "bindM (find_dialog E dialog_selectors) (\<lambda>dialog_found.
        if \<not> dialog_found
        then thenM (logging WARNING ''Could not find confirmation dialog'') (returnM False)
        else confirm_and_verify E chat)"
  have f: "emits ?PP (find_delete_button_in_menu E)"
    by (rule emits_find_delete_button_in_menu)
       (simp_all add: link_poll_def href_selector_not_menu_item[symmetric])
  have nobutton: "reaches ?P1 (plain_event chat) ?T
      (thenM (logging WARNING ''Delete button not found in menu after waiting'') (returnM False))"
    by (rule reaches_quiet, (intro emits_intros; simp), intro never_true_intros)
  show ?thesis
    unfolding delete_and_confirm_def
    by (intro reaches_bind[OF f] reaches_case_option nobutton reaches_then reaches_target
          emits_call_unit emits_sleep)
       (simp_all add: link_poll_def)
qed


text \<open>
  C3. The confirmation dialog has been found and no selector of \<open>button_selectors\<close> finds
  a button in it. Then the call makes, on each of five attempts, one \<open>find_element\<close> per
  selector in the order of the list (with a pause of one second between attempts), logs
  "All confirmation button click attempts failed" and only then calls \<open>driver.refresh()\<close>:
  no reload comes before. When the reload succeeds the call waits five seconds and returns
  False; in no case does it return True.
\<close>

theorem absent_confirm_button_exhausts_then_reloads:
  assumes absent: "\<forall>sel \<in> set button_selectors. \<forall>d. \<exists>m d'.
             run_elem E (FindElement XPATH sel) d = (Inl (NoSuchElementException m), d')"
    and run: "delete_chat E chat s = (r, s')"
    and dialog: "Log INFO ''Found dialog with selector'' \<in> set (new_events s s')"
  shows "\<exists>pre tries ev rest.
           new_events s s' =
             pre @ tries @ [Log WARNING ''All confirmation button click attempts failed'', ev] @ rest \<and>
           reloads pre = 0 \<and> map shape tries = exhausted_attempts \<and> is_reload ev \<and>
           (ev = Did Refresh \<longrightarrow> rest = [Sleep 5] \<and> r = Inr False) \<and> r \<noteq> Inr True"
proof -
  let ?found = "Log INFO ''Found dialog with selector''"
  let ?P1 = "\<lambda>ev. ev \<noteq> ?found"
  let ?T = "bindM (find_dialog E dialog_selectors) (\<lambda>dialog_found.
        if \<not> dialog_found
        then thenM (logging WARNING ''Could not find confirmation dialog'') (returnM False)
        else confirm_and_verify E chat)"
  have p1: "plain_event chat ev \<Longrightarrow> ?P1 ev \<and> plain_event chat ev" for ev
    by (auto simp: plain_event_def)
  have p2: "?P1 (Did Refresh)" by simp
  have p3: "?P1 (Failed Refresh e)" for e by simp
  have ways: "(ext ?P1 s s' \<and> r \<noteq> Inr True) \<or>
      (\<exists>s0 r0 s1. ext (plain_event chat) s s0 \<and> ?T s0 = (r0, s1) \<and>
         (case r0 of Inr b \<Rightarrow> r = Inr b \<and> s' = s1
                   | Inl e \<Rightarrow> outer_handler E chat e s1 = (r, s')))"
    by (rule delete_chat_reaches[of chat ?P1 "plain_event chat", OF p1 p2 p3 reaches_dialog_step run])
  have no: "\<not> ext ?P1 s s'"
  proof
    assume "ext ?P1 s s'"
    from ext_events[OF this] dialog show False by (auto simp: list_all_iff)
  qed
  have oh: "emits ?P1 (outer_handler E chat e)" for e
    unfolding outer_handler_def
    by (intro emits_intros emits_dark_mode_handler) simp_all
  from ways no obtain s0 r0 s1 where
    e0: "ext (plain_event chat) s s0" and t: "?T s0 = (r0, s1)"
    and out: "case r0 of Inr b \<Rightarrow> r = Inr b \<and> s' = s1
                       | Inl e \<Rightarrow> outer_handler E chat e s1 = (r, s')"
    by blast
  from e0 have e0': "ext ?P1 s s0" by (rule ext_mono) (simp add: plain_event_def)
  from e0 have e0r: "ext (\<lambda>ev. \<not> is_reload ev) s s0"
    by (rule ext_mono) (simp add: plain_event_def is_reload_calls)
  obtain rd sd where fd: "find_dialog E dialog_selectors s0 = (rd, sd)"
    by (cases "find_dialog E dialog_selectors s0")
  have found: "rd = Inr True"
  proof (rule ccontr)
    assume nf: "rd \<noteq> Inr True"
    from find_dialog_not_found[OF fd nf] e0' have e1: "ext ?P1 s sd" by (blast intro: ext_trans)
    show False
    proof (cases rd)
      case (Inl e)
      with fd t have "r0 = Inl e" "s1 = sd" by (simp_all add: bindM_def)
      with out have "outer_handler E chat e sd = (r, s')" by simp
      from emitsD[OF oh this] e1 have "ext ?P1 s s'" by (blast intro: ext_trans)
      with no show False ..
    next
      case (Inr b)
      with nf have "b = False" by simp
      with Inr fd t have "r0 = Inr False"
        and s1: "s1 = logged WARNING ''Could not find confirmation dialog'' sd"
        by (simp_all add: bindM_def thenM_def logging_def returnM_def)
      with out have s': "s' = s1" by simp
      have "ext ?P1 sd s1" unfolding s1 by (rule ext_logged) simp
      with e1 s' have "ext ?P1 s s'" by (blast intro: ext_trans)
      with no show False ..
    qed
  qed
  have "ext (\<lambda>ev. \<not> is_reload ev) s0 (snd (find_dialog E dialog_selectors s0))"
    by (rule ext_find_dialog) simp_all
  with fd e0r have er: "ext (\<lambda>ev. \<not> is_reload ev) s sd" by (auto intro: ext_trans)
  let ?pre = "new_events s sd"
  from reloads_none[OF ext_events[OF er]] have rp: "reloads ?pre = 0" .
  from ext_trace[OF er] have tsd: "trace sd = trace s @ ?pre" .
  from fd found t have cv: "confirm_and_verify E chat sd = (r0, s1)" by (simp add: bindM_def)
  from confirm_and_verify_absent[OF absent cv] obtain tries ev where
    sh: "map shape tries = exhausted_attempts"
    and t1: "trace s1 = trace sd @ tries @
             [Log WARNING ''All confirmation button click attempts failed'', ev] @
             (if ev = Did Refresh then [Sleep 5] else [])"
    and res: "ev = Did Refresh \<and> r0 = Inr False \<or> (\<exists>e. ev = Failed Refresh e \<and> r0 = Inl e)"
    by blast
  from res show ?thesis
  proof
    assume a: "ev = Did Refresh \<and> r0 = Inr False"
    with out have r: "r = Inr False" and s': "s' = s1" by simp_all
    from t1 tsd a s' have "trace s' = trace s @ (?pre @ tries @
             [Log WARNING ''All confirmation button click attempts failed'', ev] @ [Sleep 5])"
      by simp
    from new_events_append[OF this] rp sh a r show ?thesis
      by (intro exI[of _ ?pre] exI[of _ tries] exI[of _ ev] exI[of _ "[Sleep 5]"]) simp
  next
    assume "\<exists>e. ev = Failed Refresh e \<and> r0 = Inl e"
    then obtain e where ev: "ev = Failed Refresh e" and r0: "r0 = Inl e" by blast
    with out have h: "outer_handler E chat e s1 = (r, s')" by simp
    from never_trueD[OF never_true_outer_handler h] have nt: "r \<noteq> Inr True" .
    from ext_trace[OF emitsD[OF oh h]] have "trace s' = trace s1 @ new_events s1 s'" .
    with t1 tsd ev have "trace s' = trace s @ (?pre @ tries @
             [Log WARNING ''All confirmation button click attempts failed'', ev] @ new_events s1 s')"
      by simp
    from new_events_append[OF this] rp sh ev nt show ?thesis
      by (intro exI[of _ ?pre] exI[of _ tries] exI[of _ ev] exI[of _ "new_events s1 s'"]) simp
  qed
qed


lemma ui_no_confirm_button_simps:
  "run_unit ui_no_confirm_button c d = (Inr (), d)"
  "run_elem ui_no_confirm_button (FindElement XPATH sel) d =
     (Inl (NoSuchElementException ''Unable to locate element''), d)"
  "run_elem ui_no_confirm_button (FindElement CSS_SELECTOR sel) d =
     (if sel = delete_menu_item_selector then (Inr 7, d)
      else (Inl (NoSuchElementException ''Unable to locate element''), d))"
  "run_elem ui_no_confirm_button (WaitPresence l sel n) d = (Inr 5, d)"
  "run_elem ui_no_confirm_button (FindChild el l sel) d = (Inr 5, d)"
  "run_elem ui_no_confirm_button (WaitVisibleIn el l sel n) d = (Inr 5, d)"
  "run_bool ui_no_confirm_button c d = (Inr True, d)"
  "tick ui_no_confirm_button n d = d"
  by (simp_all add: ui_no_confirm_button_def)

lemma delete_chat_no_confirm_button:
  "Log INFO ''Found dialog with selector'' \<in>
     set (new_events st_sidebar (snd (delete_chat ui_no_confirm_button chat_bbb st_sidebar)))"
  "filter is_reload
     (new_events st_sidebar (snd (delete_chat ui_no_confirm_button chat_bbb st_sidebar))) =
     [Did Refresh]"
  by (simp_all add: delete_chat_defs ui_no_confirm_button_simps new_events_def
      chat_bbb_def st_sidebar_def prog_defs)

theorem absent_confirm_button_exhausts_then_reloads_witness:
  "fst (delete_chat ui_no_confirm_button chat_bbb st_sidebar) = Inr False \<and>
   (\<exists>pre tries.
      new_events st_sidebar (snd (delete_chat ui_no_confirm_button chat_bbb st_sidebar)) =
        pre @ tries @
        [Log WARNING ''All confirmation button click attempts failed'', Did Refresh, Sleep 5] \<and>
      reloads pre = 0 \<and> map shape tries = exhausted_attempts)"
proof -
  let ?r = "fst (delete_chat ui_no_confirm_button chat_bbb st_sidebar)"
  let ?tr = "new_events st_sidebar (snd (delete_chat ui_no_confirm_button chat_bbb st_sidebar))"
  have absent: "\<forall>sel \<in> set button_selectors. \<forall>d. \<exists>m d'.
      run_elem ui_no_confirm_button (FindElement XPATH sel) d = (Inl (NoSuchElementException m), d')"
    by (simp add: ui_no_confirm_button_simps)
  have run: "delete_chat ui_no_confirm_button chat_bbb st_sidebar =
      (?r, snd (delete_chat ui_no_confirm_button chat_bbb st_sidebar))" by simp
  from absent_confirm_button_exhausts_then_reloads[OF absent run delete_chat_no_confirm_button(1)]
  obtain pre tries ev rest where
    n: "?tr = pre @ tries @ [Log WARNING ''All confirmation button click attempts failed'', ev] @ rest"
    and p: "reloads pre = 0" and sh: "map shape tries = exhausted_attempts"
    and rl: "is_reload ev" and d: "ev = Did Refresh \<longrightarrow> rest = [Sleep 5] \<and> ?r = Inr False"
    by blast
  from n rl have "ev \<in> set (filter is_reload ?tr)" by simp
  with delete_chat_no_confirm_button(2) have ev: "ev = Did Refresh" by simp
  with n p sh d show ?thesis by auto
qed




















lemma dark_mode_handler_unmarked:
  "\<not> py_in dark_mode_marker (str_of e) \<Longrightarrow>
   dark_mode_handler E chat e s = (Inr False, logged ERROR ''Unexpected error'' s)"
  by (simp add: dark_mode_handler_def thenM_def bindM_def returnM_def logging_def)











lemma ext_call_unit_Inl:
  assumes "call_unit E c s = (Inl e, s2)" and "P (Failed c e)"
  shows "ext P s s2"
proof -
  have "ext (\<lambda>ev. True) s (snd (call_unit E c s))" by (rule ext_call_unit) simp_all
  with assms(1) have f: "deleted_chat_ids s2 = deleted_chat_ids s" "disk s2 = disk s"
    by (simp_all add: ext_def)
  from call_unit_Inl[OF assms(1)] f assms(2) show ?thesis by (simp add: ext_iff)
qed



lemma dark_click_faults_simps [simp]:
  "dark_click_faults [] = 0"
  "dark_click_faults (ev # tr) =
     (if intercepted_click ev \<and> marked ev then 1 else 0) + dark_click_faults tr"
  "dark_click_faults (tr @ tr') = dark_click_faults tr + dark_click_faults tr'"
  by (simp_all add: dark_click_faults_def)



lemma reloads_simps [simp]:
  "reloads [] = 0"
  "reloads (ev # tr) = (if is_reload ev then 1 else 0) + reloads tr"
  "reloads (tr @ tr') = reloads tr + reloads tr'"
  by (simp_all add: reloads_def)














end
